theory Spec2Isabelle
  imports Complex_Main "HOL-Library.Product_Lexorder" "HOL-Library.Log_Nat"
begin

section \<open>Numeric values and errors\<close>

text \<open>
  The program computes with Python and NumPy floats. A finite value is the real
  number it stands for. In the training loop, the scalers, the evaluation and the
  feature importance the arithmetic on finite values is exact: rounding and overflow
  are not modelled there. The SNV transform is modelled with its rounding, see below.
  The IEEE special values are kept, because the program's control flow and outputs
  depend on them: \<open>0 / 0\<close> is NaN in NumPy, and every ordered comparison with NaN is
  false.
\<close>

datatype fl = Fin real | PInf | NInf | NaN

datatype error =
  ValueError | ZeroDivisionError | FileNotFoundError | IndexError | RuntimeError

text \<open>NumPy's elementwise division of two finite values: no exception, only a warning.\<close>

definition np_div :: "real \<Rightarrow> real \<Rightarrow> fl" where
  "np_div a b =
     (if b = 0 then (if a = 0 then NaN else if 0 < a then PInf else NInf)
      else Fin (a / b))"

text \<open>Python's \<open>+\<close>, \<open><\<close> on floats and \<open>/\<close> of a float by an \<open>int\<close> (which raises on zero).\<close>

fun fl_add :: "fl \<Rightarrow> fl \<Rightarrow> fl" where
  "fl_add NaN _ = NaN"
| "fl_add _ NaN = NaN"
| "fl_add (Fin a) (Fin b) = Fin (a + b)"
| "fl_add PInf NInf = NaN"
| "fl_add NInf PInf = NaN"
| "fl_add PInf _ = PInf"
| "fl_add _ PInf = PInf"
| "fl_add NInf _ = NInf"
| "fl_add _ NInf = NInf"

fun fl_lt :: "fl \<Rightarrow> fl \<Rightarrow> bool" where
  "fl_lt NaN _ = False"
| "fl_lt _ NaN = False"
| "fl_lt (Fin a) (Fin b) = (a < b)"
| "fl_lt (Fin _) PInf = True"
| "fl_lt NInf (Fin _) = True"
| "fl_lt NInf PInf = True"
| "fl_lt _ _ = False"

definition py_div :: "fl \<Rightarrow> nat \<Rightarrow> error + fl" where
  "py_div x n =
     (if n = 0 then Inl ZeroDivisionError
      else Inr (case x of Fin a \<Rightarrow> Fin (a / real n) | other \<Rightarrow> other))"

section \<open>Double precision\<close>

text \<open>
  Where a result depends on how a double is rounded, the arithmetic is that of IEEE
  binary64. A finite double is the real number it stands for; the two zeros are not
  told apart. \<open>round64\<close> rounds a real to the nearest double, a tie to the one with an
  even significand: \<open>binade x\<close> is the exponent \<open>e\<close> with \<open>2^e \<le> x < 2^(e+1)\<close>, the doubles
  of that binade are the multiples of \<open>2^(e-52)\<close> (of \<open>2^(-1074)\<close> below the normal
  range), and what rounds to \<open>2^1024\<close> or beyond is infinite.
\<close>

fun fl_neg :: "fl \<Rightarrow> fl" where
  "fl_neg (Fin a) = Fin (- a)"
| "fl_neg PInf = NInf"
| "fl_neg NInf = PInf"
| "fl_neg NaN = NaN"

definition round_half_even :: "real \<Rightarrow> int" where
  "round_half_even q =
     (let f = \<lfloor>q\<rfloor>; r = q - of_int f
      in if r < 1 / 2 then f else if 1 / 2 < r then f + 1 else if even f then f else f + 1)"

definition binade :: "real \<Rightarrow> int" where
  "binade x = (if 1 \<le> x then bitlen \<lfloor>x\<rfloor> - 1 else - bitlen (\<lceil>1 / x\<rceil> - 1))"

definition round64_pos :: "real \<Rightarrow> fl" where
  "round64_pos x =
     (let e = max (binade x) (- 1022);
          u = 2 powi (e - 52);
          y = of_int (round_half_even (x / u)) * u
      in if 2 powi 1024 \<le> y then PInf else Fin y)"

definition round64 :: "real \<Rightarrow> fl" where
  "round64 x =
     (if x = 0 then Fin 0 else if 0 < x then round64_pos x else fl_neg (round64_pos (- x)))"

text \<open>
  The IEEE operations on doubles, with the rounding of a finite result as a
  parameter: \<open>round64\<close> gives double precision, \<open>Fin\<close> gives exact arithmetic.
  A zero divisor counts as positive zero.
\<close>

definition signed_inf :: "bool \<Rightarrow> fl" where
  "signed_inf negative = (if negative then NInf else PInf)"

fun is_neg :: "fl \<Rightarrow> bool" where
  "is_neg (Fin a) = (a < 0)"
| "is_neg NInf = True"
| "is_neg _ = False"

fun ieee_add :: "(real \<Rightarrow> fl) \<Rightarrow> fl \<Rightarrow> fl \<Rightarrow> fl" where
  "ieee_add rnd NaN _ = NaN"
| "ieee_add rnd _ NaN = NaN"
| "ieee_add rnd (Fin a) (Fin b) = rnd (a + b)"
| "ieee_add rnd PInf NInf = NaN"
| "ieee_add rnd NInf PInf = NaN"
| "ieee_add rnd PInf _ = PInf"
| "ieee_add rnd _ PInf = PInf"
| "ieee_add rnd NInf _ = NInf"
| "ieee_add rnd _ NInf = NInf"

definition ieee_sub :: "(real \<Rightarrow> fl) \<Rightarrow> fl \<Rightarrow> fl \<Rightarrow> fl" where
  "ieee_sub rnd a b = ieee_add rnd a (fl_neg b)"

fun ieee_mul :: "(real \<Rightarrow> fl) \<Rightarrow> fl \<Rightarrow> fl \<Rightarrow> fl" where
  "ieee_mul rnd NaN _ = NaN"
| "ieee_mul rnd _ NaN = NaN"
| "ieee_mul rnd (Fin a) (Fin b) = rnd (a * b)"
| "ieee_mul rnd a b =
     (if a = Fin 0 \<or> b = Fin 0 then NaN else signed_inf (is_neg a \<noteq> is_neg b))"

fun ieee_div :: "(real \<Rightarrow> fl) \<Rightarrow> fl \<Rightarrow> fl \<Rightarrow> fl" where
  "ieee_div rnd NaN _ = NaN"
| "ieee_div rnd _ NaN = NaN"
| "ieee_div rnd (Fin a) (Fin b) =
     (if b = 0 then (if a = 0 then NaN else signed_inf (a < 0)) else rnd (a / b))"
| "ieee_div rnd (Fin a) _ = Fin 0"
| "ieee_div rnd a (Fin b) = signed_inf (is_neg a \<noteq> (b < 0))"
| "ieee_div rnd _ _ = NaN"

fun ieee_sqrt :: "(real \<Rightarrow> fl) \<Rightarrow> fl \<Rightarrow> fl" where
  "ieee_sqrt rnd (Fin a) = (if a < 0 then NaN else rnd (sqrt a))"
| "ieee_sqrt rnd PInf = PInf"
| "ieee_sqrt rnd _ = NaN"

section \<open>Preprocessing: SNV\<close>

text \<open>
  \<open>snv_transform\<close> is \<open>(spectra - mean) / std\<close> with \<open>np.mean\<close> and \<open>np.std\<close> taken along
  the wavelength axis of each spectrum. The two library functions and the rounding of
  the elementwise subtraction and division are parameters: the order in which the
  library adds the entries of a row depends on the row's length and on the layout of
  the array in memory. Nothing is raised for a zero divisor: NumPy only warns.
\<close>

record numpy =
  np_mean :: "fl list \<Rightarrow> fl"
  np_std :: "fl list \<Rightarrow> fl"
  np_round :: "real \<Rightarrow> fl"

definition snv_row :: "numpy \<Rightarrow> fl list \<Rightarrow> fl list" where
  "snv_row np xs =
     map (\<lambda>x. ieee_div (np_round np) (ieee_sub (np_round np) x (np_mean np xs)) (np_std np xs)) xs"

definition snv_transform :: "numpy \<Rightarrow> fl list list \<Rightarrow> fl list list" where
  "snv_transform np spectra = map (snv_row np) spectra"

text \<open>
  The library functions when the entries of a row are added from left to right and
  every operation is rounded by \<open>rnd\<close>: the sum divided by the count for the mean; for
  the standard deviation the deviations from that mean, their squares, the sum of the
  squares divided by the count (\<open>ddof = 0\<close>), and the square root. This is the
  library's order of operations on a row of fewer than 8 entries, in either layout.
\<close>

definition seq_sum :: "(real \<Rightarrow> fl) \<Rightarrow> fl list \<Rightarrow> fl" where
  "seq_sum rnd xs = foldl (ieee_add rnd) (Fin 0) xs"

definition mean_with :: "(real \<Rightarrow> fl) \<Rightarrow> fl list \<Rightarrow> fl" where
  "mean_with rnd xs = ieee_div rnd (seq_sum rnd xs) (Fin (real (length xs)))"

definition std_with :: "(real \<Rightarrow> fl) \<Rightarrow> fl list \<Rightarrow> fl" where
  "std_with rnd xs =
     (let arrmean = mean_with rnd xs;
          x = map (\<lambda>v. ieee_sub rnd v arrmean) xs;
          x2 = map (\<lambda>v. ieee_mul rnd v v) x
      in ieee_sqrt rnd (ieee_div rnd (seq_sum rnd x2) (Fin (real (length xs)))))"

definition numpy_with :: "(real \<Rightarrow> fl) \<Rightarrow> numpy" where
  "numpy_with rnd = \<lparr>np_mean = mean_with rnd, np_std = std_with rnd, np_round = rnd\<rparr>"

definition binary64 :: numpy where
  "binary64 = numpy_with round64"


text \<open>
  The mean and the population standard deviation of a list of reals, in exact
  arithmetic. They are only applied to lists that have entries.
\<close>

definition mean :: "real list \<Rightarrow> real" where
  "mean xs = sum_list xs / real (length xs)"

definition std :: "real list \<Rightarrow> real" where
  "std xs = sqrt (mean (map (\<lambda>x. (x - mean xs)\<^sup>2) xs))"

section \<open>Preprocessing: standardization\<close>

text \<open>
  \<open>StandardScaler\<close> of the library, on exact reals: \<open>mean_\<close> is the mean of each
  column, \<open>scale_\<close> its population standard deviation, where a constant column gets
  the scale 1. A table is a list of rows; the library refuses a table that is empty,
  has no column, or is not rectangular, and a table whose width is not the fitted one.
\<close>

record scaler =
  sc_mean :: "real list"
  sc_scale :: "real list"

definition rectangular :: "nat \<Rightarrow> 'a list list \<Rightarrow> bool" where
  "rectangular w X = list_all (\<lambda>r. length r = w) X"

definition column :: "nat \<Rightarrow> real list list \<Rightarrow> real list" where
  "column j X = map (\<lambda>r. r ! j) X"

definition columns :: "real list list \<Rightarrow> real list list" where
  "columns X = map (\<lambda>j. column j X) [0..<length (hd X)]"

definition fit :: "real list list \<Rightarrow> error + scaler" where
  "fit X =
     (case X of
        [] \<Rightarrow> Inl ValueError
      | r # _ \<Rightarrow>
          if r = [] \<or> \<not> rectangular (length r) X then Inl ValueError
          else Inr \<lparr>sc_mean = map mean (columns X),
                    sc_scale = map (\<lambda>c. if std c = 0 then 1 else std c) (columns X)\<rparr>)"

definition transform_row :: "scaler \<Rightarrow> real list \<Rightarrow> real list" where
  "transform_row sc x = map (\<lambda>(v, m, s). (v - m) / s) (zip x (zip (sc_mean sc) (sc_scale sc)))"

definition inverse_row :: "scaler \<Rightarrow> real list \<Rightarrow> real list" where
  "inverse_row sc x = map (\<lambda>(v, m, s). v * s + m) (zip x (zip (sc_mean sc) (sc_scale sc)))"

definition transform :: "scaler \<Rightarrow> real list list \<Rightarrow> error + real list list" where
  "transform sc X =
     (if X = [] \<or> \<not> rectangular (length (sc_mean sc)) X then Inl ValueError
      else Inr (map (transform_row sc) X))"

definition inverse_transform :: "scaler \<Rightarrow> real list list \<Rightarrow> error + real list list" where
  "inverse_transform sc X =
     (if X = [] \<or> \<not> rectangular (length (sc_mean sc)) X then Inl ValueError
      else Inr (map (inverse_row sc) X))"

definition fit_transform :: "real list list \<Rightarrow> error + scaler \<times> real list list" where
  "fit_transform X =
     (case fit X of
        Inl e \<Rightarrow> Inl e
      | Inr sc \<Rightarrow> (case transform sc X of Inl e \<Rightarrow> Inl e | Inr Z \<Rightarrow> Inr (sc, Z)))"

text \<open>
  The table of spectra can hold NaN entries after SNV. The library scaler accepts
  them: it refuses infinite entries, leaves NaN entries out of the statistics of
  their column (a column with no number gets NaN statistics), and \<open>transform\<close> leaves
  them NaN.
\<close>

record nan_scaler =
  ns_mean :: "fl list"
  ns_scale :: "fl list"

fun finite_values :: "fl list \<Rightarrow> real list" where
  "finite_values [] = []"
| "finite_values (Fin v # xs) = v # finite_values xs"
| "finite_values (_ # xs) = finite_values xs"

definition has_inf :: "fl list list \<Rightarrow> bool" where
  "has_inf X = list_ex (list_ex (\<lambda>v. v = PInf \<or> v = NInf)) X"

definition nan_columns :: "fl list list \<Rightarrow> fl list list" where
  "nan_columns X = map (\<lambda>j. map (\<lambda>r. r ! j) X) [0..<length (hd X)]"

definition nan_mean :: "fl list \<Rightarrow> fl" where
  "nan_mean c = (case finite_values c of [] \<Rightarrow> NaN | v # vs \<Rightarrow> Fin (mean (v # vs)))"

definition nan_scale :: "fl list \<Rightarrow> fl" where
  "nan_scale c =
     (case finite_values c of
        [] \<Rightarrow> NaN
      | v # vs \<Rightarrow> Fin (if std (v # vs) = 0 then 1 else std (v # vs)))"

definition nan_fit :: "fl list list \<Rightarrow> error + nan_scaler" where
  "nan_fit X =
     (case X of
        [] \<Rightarrow> Inl ValueError
      | r # _ \<Rightarrow>
          if r = [] \<or> \<not> rectangular (length r) X \<or> has_inf X then Inl ValueError
          else Inr \<lparr>ns_mean = map nan_mean (nan_columns X),
                    ns_scale = map nan_scale (nan_columns X)\<rparr>)"

definition nan_transform_row :: "nan_scaler \<Rightarrow> fl list \<Rightarrow> fl list" where
  "nan_transform_row sc x =
     map (\<lambda>(v, m, s). case (v, m, s) of (Fin a, Fin b, Fin c) \<Rightarrow> Fin ((a - b) / c) | _ \<Rightarrow> NaN)
       (zip x (zip (ns_mean sc) (ns_scale sc)))"

definition nan_transform :: "nan_scaler \<Rightarrow> fl list list \<Rightarrow> error + fl list list" where
  "nan_transform sc X =
     (if X = [] \<or> \<not> rectangular (length (ns_mean sc)) X \<or> has_inf X then Inl ValueError
      else Inr (map (nan_transform_row sc) X))"

definition nan_fit_transform :: "fl list list \<Rightarrow> error + nan_scaler \<times> fl list list" where
  "nan_fit_transform X =
     (case nan_fit X of
        Inl e \<Rightarrow> Inl e
      | Inr sc \<Rightarrow> (case nan_transform sc X of Inl e \<Rightarrow> Inl e | Inr Z \<Rightarrow> Inr (sc, Z)))"

section \<open>Dataset split\<close>

text \<open>
  \<open>train_test_split(..., test_size=0.3, random_state=42, shuffle=True)\<close> of the library:
  the test size is \<open>ceil(0.3 * n)\<close>, the train size is the rest, an empty train set is
  refused. The indices come from one permutation of \<open>0..<n\<close> drawn from the seeded
  generator: the first \<open>n_test\<close> entries are the test indices, the next \<open>n_train\<close> the
  train indices. The generator's stream is a parameter \<open>perm\<close>: \<open>perm n\<close> is the
  permutation the seed gives for \<open>n\<close> samples. The product \<open>0.3 * n\<close> is taken on reals;
  the float product has the same ceiling for every \<open>n\<close> a table can have.
\<close>

definition split_sizes :: "nat \<Rightarrow> error + nat \<times> nat" where
  "split_sizes n =
     (let n_test = nat \<lceil>0.3 * real n\<rceil>; n_train = n - n_test
      in if n_train = 0 then Inl ValueError else Inr (n_train, n_test))"

definition split_indices :: "(nat \<Rightarrow> nat list) \<Rightarrow> nat \<Rightarrow> error + nat list \<times> nat list" where
  "split_indices perm n =
     (case split_sizes n of
        Inl e \<Rightarrow> Inl e
      | Inr (n_train, n_test) \<Rightarrow>
          Inr (take n_train (drop n_test (perm n)), take n_test (perm n)))"

definition take_rows :: "nat list \<Rightarrow> 'a list \<Rightarrow> error + 'a list" where
  "take_rows idx X =
     (if list_all (\<lambda>i. i < length X) idx then Inr (map (\<lambda>i. X ! i) idx) else Inl IndexError)"

definition train_test_split ::
  "(nat \<Rightarrow> nat list) \<Rightarrow> 'a list \<Rightarrow> 'b list \<Rightarrow> error + 'a list \<times> 'a list \<times> 'b list \<times> 'b list" where
  "train_test_split perm X Y =
     (if length X \<noteq> length Y then Inl ValueError
      else case split_indices perm (length X) of
        Inl e \<Rightarrow> Inl e
      | Inr (train, test) \<Rightarrow>
          (case (take_rows train X, take_rows test X, take_rows train Y, take_rows test Y) of
             (Inr x_tr, Inr x_te, Inr y_tr, Inr y_te) \<Rightarrow> Inr (x_tr, x_te, y_tr, y_te)
           | _ \<Rightarrow> Inl IndexError))"

section \<open>Loading and preprocessing\<close>

text \<open>
  \<open>load_and_preprocess_data\<close> from the point where the spectra and the four target
  columns have been read from the table; the target columns hold numbers. Reading
  the file, plotting, the conversion to tensors and the two data loaders (batches of
  8 rows of the partitions) are left out. The smoothing filter of the library is a
  parameter \<open>savgol_filter\<close>.
\<close>

record dataset =
  X_train :: "fl list list"
  X_test :: "fl list list"
  y_train :: "real list list"
  y_test :: "real list list"
  scaler_spectra :: nan_scaler
  scaler_targets :: scaler

definition preprocess ::
  "(fl list list \<Rightarrow> error + fl list list) \<Rightarrow> numpy \<Rightarrow> bool \<Rightarrow> bool \<Rightarrow> fl list list
     \<Rightarrow> error + fl list list" where
  "preprocess savgol_filter np apply_smoothing apply_snv spectra =
     (case (if apply_smoothing then savgol_filter spectra else Inr spectra) of
        Inl e \<Rightarrow> Inl e
      | Inr smoothed \<Rightarrow> Inr (if apply_snv then snv_transform np smoothed else smoothed))"

definition load_and_preprocess_data ::
  "(fl list list \<Rightarrow> error + fl list list) \<Rightarrow> numpy \<Rightarrow> (nat \<Rightarrow> nat list) \<Rightarrow> bool \<Rightarrow> bool
     \<Rightarrow> fl list list \<Rightarrow> real list list \<Rightarrow> error + dataset" where
  "load_and_preprocess_data savgol_filter np perm apply_smoothing apply_snv spectra targets =
     (case preprocess savgol_filter np apply_smoothing apply_snv spectra of
        Inl e \<Rightarrow> Inl e
      | Inr spectra' \<Rightarrow>
      (case nan_fit_transform spectra' of
        Inl e \<Rightarrow> Inl e
      | Inr (sc_x, spectra_scaled) \<Rightarrow>
      (case fit_transform targets of
        Inl e \<Rightarrow> Inl e
      | Inr (sc_y, targets_scaled) \<Rightarrow>
      (case train_test_split perm spectra_scaled targets_scaled of
        Inl e \<Rightarrow> Inl e
      | Inr (x_tr, x_te, y_tr, y_te) \<Rightarrow>
          Inr \<lparr>X_train = x_tr, X_test = x_te, y_train = y_tr, y_test = y_te,
               scaler_spectra = sc_x, scaler_targets = sc_y\<rparr>))))"

section \<open>Evaluation\<close>

text \<open>
  \<open>evaluate_model\<close>: the model in inference mode is a function on a batch of rows, the
  test loader a list of (inputs, labels) batches. The mean test loss is only printed,
  but its division by the number of batches raises when there is none.
\<close>

fun eval_loop ::
  "(real list list \<Rightarrow> real list list) \<Rightarrow> (real list list \<Rightarrow> real list list \<Rightarrow> fl)
     \<Rightarrow> (real list list \<times> real list list) list
     \<Rightarrow> fl \<times> real list list list \<times> real list list list
     \<Rightarrow> fl \<times> real list list list \<times> real list list list" where
  "eval_loop model criterion [] acc = acc"
| "eval_loop model criterion ((inputs, labels) # rest) (test_loss, all_preds, all_labels) =
     (let outputs = model inputs; loss = criterion outputs labels
      in eval_loop model criterion rest
           (fl_add test_loss loss, all_preds @ [outputs], all_labels @ [labels]))"

definition evaluate_model ::
  "(real list list \<Rightarrow> real list list) \<Rightarrow> (real list list \<Rightarrow> real list list \<Rightarrow> fl)
     \<Rightarrow> (real list list \<times> real list list) list \<Rightarrow> scaler option
     \<Rightarrow> error + real list list \<times> real list list" where
  "evaluate_model model criterion test_loader target_scaler =
     (case eval_loop model criterion test_loader (Fin 0, [], []) of
        (test_loss, all_preds, all_labels) \<Rightarrow>
      (case py_div test_loss (length test_loader) of
        Inl e \<Rightarrow> Inl e
      | Inr mean_loss \<Rightarrow>
      (case target_scaler of
        None \<Rightarrow> Inr (concat all_preds, concat all_labels)
      | Some sc \<Rightarrow>
      (case inverse_transform sc (concat all_preds) of
        Inl e \<Rightarrow> Inl e
      | Inr preds \<Rightarrow>
      (case inverse_transform sc (concat all_labels) of
        Inl e \<Rightarrow> Inl e
      | Inr labels \<Rightarrow> Inr (preds, labels))))))"

section \<open>Regression model: tensor shapes\<close>

text \<open>
  The shape of the tensor after each layer of \<open>EnhancedCNNModel.forward\<close>, with the
  checks the library's layers make on their input: a convolution wants its channel
  count and a padded length no shorter than its kernel; batch normalisation wants its
  feature count and, in training mode, more than one value per channel; max pooling
  wants a length that leaves at least one window; a linear layer wants its input width.
  Activation and dropout keep the shape. Which of its exceptions the library raises for
  an empty batch is not distinguished: the model reports the one of \<open>view\<close>.
\<close>

record cnn =
  input_size :: nat
  output_size :: nat
  training :: bool

definition fc_input_size :: "cnn \<Rightarrow> nat" where
  "fc_input_size m = 128 * (input_size m div 2)"

definition conv1d :: "nat \<Rightarrow> nat \<Rightarrow> nat \<Rightarrow> nat \<Rightarrow> nat \<times> nat \<times> nat \<Rightarrow> error + nat \<times> nat \<times> nat" where
  "conv1d in_channels out_channels kernel_size padding sh =
     (case sh of (b, c, l) \<Rightarrow>
        if c = in_channels \<and> kernel_size \<le> l + 2 * padding
        then Inr (b, out_channels, l + 2 * padding - kernel_size + 1)
        else Inl RuntimeError)"

definition batch_norm_3d :: "bool \<Rightarrow> nat \<Rightarrow> nat \<times> nat \<times> nat \<Rightarrow> error + nat \<times> nat \<times> nat" where
  "batch_norm_3d train num_features sh =
     (case sh of (b, c, l) \<Rightarrow>
        if train \<and> b * l = 1 then Inl ValueError
        else if c \<noteq> num_features then Inl RuntimeError
        else Inr (b, c, l))"

definition batch_norm_2d :: "bool \<Rightarrow> nat \<Rightarrow> nat \<times> nat \<Rightarrow> error + nat \<times> nat" where
  "batch_norm_2d train num_features sh =
     (case sh of (b, c) \<Rightarrow>
        if train \<and> b = 1 then Inl ValueError
        else if c \<noteq> num_features then Inl RuntimeError
        else Inr (b, c))"

definition max_pool1d :: "nat \<Rightarrow> nat \<times> nat \<times> nat \<Rightarrow> error + nat \<times> nat \<times> nat" where
  "max_pool1d kernel_size sh =
     (case sh of (b, c, l) \<Rightarrow>
        if l < kernel_size then Inl RuntimeError
        else Inr (b, c, (l - kernel_size) div kernel_size + 1))"

definition linear :: "nat \<Rightarrow> nat \<Rightarrow> nat \<times> nat \<Rightarrow> error + nat \<times> nat" where
  "linear in_features out_features sh =
     (case sh of (b, f) \<Rightarrow> if f = in_features then Inr (b, out_features) else Inl RuntimeError)"

definition same_shape :: "'a \<Rightarrow> error + 'a" where
  "same_shape sh = Inr sh"

definition view_flat :: "nat \<times> nat \<times> nat \<Rightarrow> error + nat \<times> nat" where
  "view_flat sh =
     (case sh of (b, c, l) \<Rightarrow> if b * c * l = 0 then Inl RuntimeError else Inr (b, c * l))"

fun run_layers :: "('a \<Rightarrow> error + 'a) list \<Rightarrow> 'a \<Rightarrow> error + 'a" where
  "run_layers [] x = Inr x"
| "run_layers (f # fs) x = (case f x of Inl e \<Rightarrow> Inl e | Inr y \<Rightarrow> run_layers fs y)"

definition conv_stack_shape :: "cnn \<Rightarrow> nat \<times> nat \<Rightarrow> error + nat \<times> nat \<times> nat" where
  "conv_stack_shape m sh =
     (case sh of (b, n) \<Rightarrow>
        run_layers
          [conv1d 1 32 11 5, batch_norm_3d (training m) 32, same_shape, same_shape,
           conv1d 32 64 7 3, batch_norm_3d (training m) 64, same_shape, same_shape,
           conv1d 64 128 5 2, batch_norm_3d (training m) 128, same_shape, max_pool1d 2]
          (b, 1, n))"

definition flatten_shape :: "cnn \<Rightarrow> nat \<times> nat \<Rightarrow> error + nat \<times> nat" where
  "flatten_shape m sh =
     (case conv_stack_shape m sh of Inl e \<Rightarrow> Inl e | Inr s3 \<Rightarrow> view_flat s3)"

definition forward_shape :: "cnn \<Rightarrow> nat \<times> nat \<Rightarrow> error + nat \<times> nat" where
  "forward_shape m sh =
     (case flatten_shape m sh of
        Inl e \<Rightarrow> Inl e
      | Inr s2 \<Rightarrow>
          run_layers
            [linear (fc_input_size m) 256, batch_norm_2d (training m) 256, same_shape, same_shape,
             linear 256 128, batch_norm_2d (training m) 128, same_shape, same_shape,
             linear 128 (output_size m)]
            s2)"

section \<open>Training\<close>

text \<open>
  \<open>train_model\<close>. The model's parameters \<open>'p\<close> and the state \<open>'o\<close> of the optimizer and
  the scheduler are abstract. \<open>batch_step\<close> is one pass of the inner loop's body
  (gradient reset, forward pass, loss, backward pass, optimizer step) and gives the
  batch loss; \<open>scheduler\<close> is the optional learning-rate scheduler's \<open>step\<close>;
  \<open>train_loader e\<close> is the list of batches the shuffling loader yields in epoch \<open>e\<close>.
  \<open>best_model_pth\<close> is the content of the checkpoint file, if the file exists.
\<close>

record ('p, 'o, 'b) trainer =
  batch_step :: "'b \<Rightarrow> 'p \<times> 'o \<Rightarrow> ('p \<times> 'o) \<times> fl"
  scheduler :: "(fl \<Rightarrow> 'o \<Rightarrow> 'o) option"
  train_loader :: "nat \<Rightarrow> 'b list"

record ('p, 'o) train_state =
  params :: 'p
  optim :: 'o
  loss_history :: "fl list"
  best_loss :: fl
  counter :: nat
  best_model_pth :: "'p option"

definition patience :: nat where
  "patience = 20"

fun train_batches ::
  "('b \<Rightarrow> 'p \<times> 'o \<Rightarrow> ('p \<times> 'o) \<times> fl) \<Rightarrow> 'b list \<Rightarrow> ('p \<times> 'o) \<times> fl \<Rightarrow> ('p \<times> 'o) \<times> fl" where
  "train_batches step [] acc = acc"
| "train_batches step (b # bs) (s, running_loss) =
     (case step b s of (s', loss) \<Rightarrow> train_batches step bs (s', fl_add running_loss loss))"

definition train_epoch ::
  "('p, 'o, 'b) trainer \<Rightarrow> nat \<Rightarrow> 'p \<times> 'o \<Rightarrow> error + ('p \<times> 'o) \<times> fl" where
  "train_epoch T epoch s =
     (case train_batches (batch_step T) (train_loader T epoch) (s, Fin 0) of
        ((p, opt), running_loss) \<Rightarrow>
          (case py_div running_loss (length (train_loader T epoch)) of
             Inl e \<Rightarrow> Inl e
           | Inr epoch_loss \<Rightarrow>
               Inr ((p, case scheduler T of None \<Rightarrow> opt | Some sched \<Rightarrow> sched epoch_loss opt),
                    epoch_loss)))"

text \<open>One iteration of the epoch loop; the boolean says whether it ends in \<open>break\<close>.\<close>

definition epoch_step ::
  "('p, 'o, 'b) trainer \<Rightarrow> nat \<Rightarrow> ('p, 'o) train_state \<Rightarrow> error + bool \<times> ('p, 'o) train_state" where
  "epoch_step T epoch s =
     (case train_epoch T epoch (params s, optim s) of
        Inl e \<Rightarrow> Inl e
      | Inr ((p, opt), epoch_loss) \<Rightarrow>
          (let s1 = s\<lparr>params := p, optim := opt, loss_history := loss_history s @ [epoch_loss]\<rparr>
           in if fl_lt epoch_loss (best_loss s1)
              then Inr (False, s1\<lparr>best_loss := epoch_loss, counter := 0, best_model_pth := Some p\<rparr>)
              else Inr (patience \<le> counter s1 + 1, s1\<lparr>counter := counter s1 + 1\<rparr>)))"

fun epoch_loop ::
  "('p, 'o, 'b) trainer \<Rightarrow> nat \<Rightarrow> nat \<Rightarrow> ('p, 'o) train_state \<Rightarrow> error + ('p, 'o) train_state" where
  "epoch_loop T epoch 0 s = Inr s"
| "epoch_loop T epoch (Suc remaining) s =
     (case epoch_step T epoch s of
        Inl e \<Rightarrow> Inl e
      | Inr (stop, s') \<Rightarrow> if stop then Inr s' else epoch_loop T (Suc epoch) remaining s')"

definition initial_state :: "'p \<Rightarrow> 'o \<Rightarrow> 'p option \<Rightarrow> ('p, 'o) train_state" where
  "initial_state p0 opt0 file0 =
     \<lparr>params = p0, optim = opt0, loss_history = [], best_loss = PInf, counter = 0,
      best_model_pth = file0\<rparr>"

definition train_model ::
  "('p, 'o, 'b) trainer \<Rightarrow> nat \<Rightarrow> 'p \<Rightarrow> 'o \<Rightarrow> 'p option \<Rightarrow> error + ('p, 'o) train_state" where
  "train_model T epochs p0 opt0 file0 =
     (case epoch_loop T 0 epochs (initial_state p0 opt0 file0) of
        Inl e \<Rightarrow> Inl e
      | Inr s \<Rightarrow>
          (case best_model_pth s of
             None \<Rightarrow> Inl FileNotFoundError
           | Some p \<Rightarrow> Inr (s\<lparr>params := p\<rparr>)))"

text \<open>
  Three views of a run, used to state its properties. \<open>trained T s0 e\<close> is the pair of
  parameters and optimizer state after \<open>e\<close> epochs of training from \<open>s0\<close>, early stopping
  aside; \<open>loss_at T s0 e\<close> is the mean loss of epoch \<open>e\<close> (epochs count from 0) on that
  course; \<open>state_at T s e\<close> is the state of the epoch loop on entry to epoch \<open>e\<close>, if
  the loop gets there.
\<close>

fun trained :: "('p, 'o, 'b) trainer \<Rightarrow> 'p \<times> 'o \<Rightarrow> nat \<Rightarrow> error + 'p \<times> 'o" where
  "trained T s0 0 = Inr s0"
| "trained T s0 (Suc e) =
     (case trained T s0 e of
        Inl x \<Rightarrow> Inl x
      | Inr s \<Rightarrow> (case train_epoch T e s of Inl x \<Rightarrow> Inl x | Inr (s', l) \<Rightarrow> Inr s'))"

definition loss_at :: "('p, 'o, 'b) trainer \<Rightarrow> 'p \<times> 'o \<Rightarrow> nat \<Rightarrow> error + fl" where
  "loss_at T s0 e =
     (case trained T s0 e of
        Inl x \<Rightarrow> Inl x
      | Inr s \<Rightarrow> (case train_epoch T e s of Inl x \<Rightarrow> Inl x | Inr (s', l) \<Rightarrow> Inr l))"

fun state_at ::
  "('p, 'o, 'b) trainer \<Rightarrow> ('p, 'o) train_state \<Rightarrow> nat \<Rightarrow> ('p, 'o) train_state option" where
  "state_at T s0 0 = Some s0"
| "state_at T s0 (Suc e) =
     (case state_at T s0 e of
        None \<Rightarrow> None
      | Some s \<Rightarrow>
          (case epoch_step T e s of
             Inl x \<Rightarrow> None
           | Inr (stop, s') \<Rightarrow> if stop then None else Some s'))"

section \<open>Feature importance\<close>

text \<open>
  \<open>feature_importance_analysis\<close> clones the probe tensor and updates the clone in
  place, so tensors live in a store: addresses are numbers, \<open>fresh\<close> is the next free
  one. The fitted model in inference mode is a function from a sample to its output;
  the random probe is drawn by the parameter \<open>randn\<close>.
\<close>

record heap =
  cells :: "nat \<Rightarrow> real list option"
  fresh :: nat

definition alloc :: "real list \<Rightarrow> heap \<Rightarrow> nat \<times> heap" where
  "alloc v h = (fresh h, h\<lparr>cells := (cells h)(fresh h \<mapsto> v), fresh := Suc (fresh h)\<rparr>)"

definition clone :: "nat \<Rightarrow> heap \<Rightarrow> error + nat \<times> heap" where
  "clone a h = (case cells h a of None \<Rightarrow> Inl RuntimeError | Some v \<Rightarrow> Inr (alloc v h))"

definition add_at :: "nat \<Rightarrow> nat \<Rightarrow> real \<Rightarrow> heap \<Rightarrow> error + heap" where
  "add_at a i d h =
     (case cells h a of
        None \<Rightarrow> Inl RuntimeError
      | Some v \<Rightarrow>
          if i < length v then Inr (h\<lparr>cells := (cells h)(a \<mapsto> v[i := v ! i + d])\<rparr>)
          else Inl IndexError)"

definition call_model :: "(real list \<Rightarrow> real list) \<Rightarrow> nat \<Rightarrow> heap \<Rightarrow> error + nat \<times> heap" where
  "call_model f a h = (case cells h a of None \<Rightarrow> Inl RuntimeError | Some v \<Rightarrow> Inr (alloc (f v) h))"

definition l2_norm :: "real list \<Rightarrow> real" where
  "l2_norm v = sqrt (sum_list (map (\<lambda>x. x\<^sup>2) v))"

definition norm_of_difference :: "nat \<Rightarrow> nat \<Rightarrow> heap \<Rightarrow> error + real" where
  "norm_of_difference a b h =
     (case (cells h a, cells h b) of
        (Some u, Some v) \<Rightarrow> Inr (l2_norm (map (\<lambda>(x, y). x - y) (zip u v)))
      | _ \<Rightarrow> Inl RuntimeError)"

fun perturb_loop ::
  "(real list \<Rightarrow> real list) \<Rightarrow> nat \<Rightarrow> nat \<Rightarrow> nat list \<Rightarrow> heap \<times> real list
     \<Rightarrow> error + heap \<times> real list" where
  "perturb_loop f random_sample original_output [] st = Inr st"
| "perturb_loop f random_sample original_output (i # rest) (h, feature_importance) =
     (case clone random_sample h of
        Inl e \<Rightarrow> Inl e
      | Inr (perturbed_sample, h1) \<Rightarrow>
      (case add_at perturbed_sample i 0.1 h1 of
        Inl e \<Rightarrow> Inl e
      | Inr h2 \<Rightarrow>
      (case call_model f perturbed_sample h2 of
        Inl e \<Rightarrow> Inl e
      | Inr (perturbed_output, h3) \<Rightarrow>
      (case norm_of_difference perturbed_output original_output h3 of
        Inl e \<Rightarrow> Inl e
      | Inr importance \<Rightarrow>
          if i < length feature_importance
          then perturb_loop f random_sample original_output rest
                 (h3, feature_importance[i := importance])
          else Inl IndexError))))"

text \<open>
  \<open>np.argsort\<close>: ascending, NaN last. The library's default sort is not stable; the
  order among equal values, here that of a stable sort, is not relied upon.
\<close>

fun sort_rank :: "fl \<Rightarrow> nat \<times> real" where
  "sort_rank NInf = (0, 0)"
| "sort_rank (Fin v) = (1, v)"
| "sort_rank PInf = (2, 0)"
| "sort_rank NaN = (3, 0)"

definition argsort :: "fl list \<Rightarrow> nat list" where
  "argsort xs = sort_key (\<lambda>i. sort_rank (xs ! i)) [0..<length xs]"

definition empty_heap :: heap where
  "empty_heap = \<lparr>cells = (\<lambda>a. None), fresh = 0\<rparr>"

definition probe_run ::
  "(real list \<Rightarrow> real list) \<Rightarrow> nat \<Rightarrow> real list \<Rightarrow> error + heap \<times> real list" where
  "probe_run f n probe =
     (case alloc probe empty_heap of (random_sample, h0) \<Rightarrow>
      (case call_model f random_sample h0 of
        Inl e \<Rightarrow> Inl e
      | Inr (original_output, h1) \<Rightarrow>
          perturb_loop f random_sample original_output [0..<n] (h1, replicate n 0)))"

definition feature_importance_analysis ::
  "(real list \<Rightarrow> real list) \<Rightarrow> 'c list \<Rightarrow> (nat \<Rightarrow> real list) \<Rightarrow> error + fl list \<times> 'c list" where
  "feature_importance_analysis f spectra_columns randn =
     (case probe_run f (length spectra_columns) (randn (length spectra_columns)) of
        Inl e \<Rightarrow> Inl e
      | Inr (h, raw) \<Rightarrow>
          if raw = [] then Inl ValueError
          else
            (let feature_importance = map (\<lambda>v. np_div v (Max (set raw))) raw;
                 top_indices = drop (length feature_importance - 10) (argsort feature_importance)
             in Inr (feature_importance, map (\<lambda>i. spectra_columns ! i) top_indices)))"

text \<open>
  What one iteration of the loop computes, as values: the clone of the probe with
  0.1 added at channel \<open>i\<close>, and the norm of the change it makes to the model's output.
\<close>

definition perturbed :: "real list \<Rightarrow> nat \<Rightarrow> real list" where
  "perturbed probe i = probe[i := probe ! i + 0.1]"

definition importance_of :: "(real list \<Rightarrow> real list) \<Rightarrow> real list \<Rightarrow> nat \<Rightarrow> real" where
  "importance_of f probe i =
     l2_norm (map (\<lambda>(x, y). x - y) (zip (f (perturbed probe i)) (f probe)))"

text \<open>
  A run for the witness: every optimizer step adds one to the parameter, the scheduler
  counts its calls, and the loss of a batch is \<open>3 - p\<close> for the parameter \<open>p\<close> it was
  computed with, but never below 1. The mean losses are 3, 2, 1, 1, 1, ...: the last
  improvement is in epoch 2.
\<close>

definition demo_trainer :: "(nat, nat, bool) trainer" where
  "demo_trainer =
     \<lparr>batch_step = (\<lambda>b (p, opt). ((Suc p, opt), Fin (max 1 (3 - real p)))),
      scheduler = Some (\<lambda>l opt. Suc opt),
      train_loader = (\<lambda>e. [True])\<rparr>"

section \<open>Properties of the rounding\<close>

lemma round_half_even_eqI:
  assumes "real_of_int n - 1 / 2 < q" and "q < real_of_int n + 1 / 2"
  shows "round_half_even q = n"
proof -
  have "\<lfloor>q\<rfloor> = n \<or> \<lfloor>q\<rfloor> = n - 1" using assms by linarith
  then show ?thesis
  proof
    assume f: "\<lfloor>q\<rfloor> = n"
    then have "q - of_int \<lfloor>q\<rfloor> < 1 / 2" using assms by simp
    then show ?thesis by (simp add: round_half_even_def Let_def f)
  next
    assume f: "\<lfloor>q\<rfloor> = n - 1"
    then have "1 / 2 < q - of_int \<lfloor>q\<rfloor>" using assms by simp
    then show ?thesis by (simp add: round_half_even_def Let_def f)
  qed
qed


lemma bitlen_eqI:
  assumes "0 \<le> k" and "2 ^ nat k \<le> m" and "m < 2 ^ nat (k + 1)"
  shows "bitlen m = k + 1"
proof -
  have pos: "0 < m" using assms(2) by (smt (verit) zero_less_power)
  from bitlen_bounds[OF pos] have b: "2 ^ nat (bitlen m - 1) \<le> m" "m < 2 ^ nat (bitlen m)"
    by simp_all
  have b1: "1 \<le> bitlen m" using pos bitlen_eq_zero_iff[of m] bitlen_nonneg[of m] by linarith
  have "(2::int) ^ nat (bitlen m - 1) < 2 ^ nat (k + 1)" using b(1) assms(3) by linarith
  then have "nat (bitlen m - 1) < nat (k + 1)" by (simp add: power_strict_increasing_iff)
  moreover have "(2::int) ^ nat k < 2 ^ nat (bitlen m)" using b(2) assms(2) by linarith
  then have "nat k < nat (bitlen m)" by (simp add: power_strict_increasing_iff)
  ultimately show ?thesis using assms(1) b1 by linarith
qed

lemma binade_eqI:
  assumes "2 powi e \<le> x" and "x < 2 powi (e + 1)"
  shows "binade x = e"
proof (cases "1 \<le> x")
  case True
  have e0: "0 \<le> e"
  proof (rule ccontr)
    assume "\<not> 0 \<le> e"
    then have "e + 1 \<le> 0" by simp
    then have "(2::real) powi (e + 1) \<le> 2 powi 0"
      by (intro power_int_increasing) simp_all
    then show False using assms(2) True by simp
  qed
  have p1: "(2::real) powi e = 2 ^ nat e" using e0 by (simp add: power_int_def)
  have p2: "(2::real) powi (e + 1) = 2 ^ nat (e + 1)" using e0 by (simp add: power_int_def)
  have "real_of_int (2 ^ nat e) \<le> x" using assms(1) p1 by simp
  then have l: "2 ^ nat e \<le> \<lfloor>x\<rfloor>" by (simp only: le_floor_iff)
  have "x < real_of_int (2 ^ nat (e + 1))" using assms(2) p2 by simp
  then have u: "\<lfloor>x\<rfloor> < 2 ^ nat (e + 1)" by (simp only: floor_less_iff)
  from bitlen_eqI[OF e0 l u] True show ?thesis by (simp add: binade_def)
next
  case False
  then have x1: "x < 1" by simp
  have xpos: "0 < x" using assms(1) by (smt (verit) zero_less_power_int)
  have e0: "e < 0"
  proof (rule ccontr)
    assume "\<not> e < 0"
    then have "(2::real) powi 0 \<le> 2 powi e"
      by (intro power_int_increasing) simp_all
    then show False using assms(1) x1 by simp
  qed
  define k where "k = - e - 1"
  have k0: "0 \<le> k" using e0 by (simp add: k_def)
  have p1: "(2::real) powi e = 1 / 2 ^ nat (k + 1)"
    using e0 by (simp add: power_int_def k_def field_simps)
  have p2: "(2::real) powi (e + 1) = 1 / 2 ^ nat k"
    using e0 by (auto simp: power_int_def k_def field_simps)
  have "1 / x \<le> 2 ^ nat (k + 1)"
    using assms(1) xpos unfolding p1 by (simp add: field_simps)
  then have "1 / x \<le> real_of_int (2 ^ nat (k + 1))" by simp
  then have "\<lceil>1 / x\<rceil> \<le> 2 ^ nat (k + 1)" by (simp only: ceiling_le_iff)
  then have u: "\<lceil>1 / x\<rceil> - 1 < 2 ^ nat (k + 1)" by simp
  have "2 ^ nat k < 1 / x"
    using assms(2) xpos unfolding p2 by (simp add: field_simps)
  then have "real_of_int (2 ^ nat k) < 1 / x" by simp
  then have "2 ^ nat k < \<lceil>1 / x\<rceil>" by (simp only: less_ceiling_iff)
  then have l: "2 ^ nat k \<le> \<lceil>1 / x\<rceil> - 1" by simp
  from bitlen_eqI[OF k0 l u] False show ?thesis by (simp add: binade_def k_def)
qed

lemma round64_pos_eqI:
  assumes "2 powi e \<le> x" and "x < 2 powi (e + 1)" and "- 1022 \<le> e"
    and "real_of_int n - 1 / 2 < x / 2 powi (e - 52)"
    and "x / 2 powi (e - 52) < real_of_int n + 1 / 2"
    and "real_of_int n * 2 powi (e - 52) < 2 powi 1024"
  shows "round64_pos x = Fin (real_of_int n * 2 powi (e - 52))"
proof -
  have b: "binade x = e" using assms(1,2) by (rule binade_eqI)
  have m: "max e (- 1022) = e" using assms(3) by simp
  have r: "round_half_even (x / 2 powi (e - 52)) = n"
    using assms(4,5) by (rule round_half_even_eqI)
  show ?thesis
    unfolding round64_pos_def b m Let_def r using assms(6) by simp
qed

lemma round64_eqI:
  assumes "2 powi e \<le> x" and "x < 2 powi (e + 1)" and "- 1022 \<le> e"
    and "real_of_int n - 1 / 2 < x / 2 powi (e - 52)"
    and "x / 2 powi (e - 52) < real_of_int n + 1 / 2"
    and "real_of_int n * 2 powi (e - 52) < 2 powi 1024"
  shows "round64 x = Fin (real_of_int n * 2 powi (e - 52))"
    and "round64 (- x) = Fin (- (real_of_int n * 2 powi (e - 52)))"
proof -
  have xpos: "0 < x" using assms(1) by (smt (verit) zero_less_power_int)
  show "round64 x = Fin (real_of_int n * 2 powi (e - 52))"
    using xpos round64_pos_eqI[OF assms] by (simp add: round64_def)
  show "round64 (- x) = Fin (- (real_of_int n * 2 powi (e - 52)))"
    using xpos round64_pos_eqI[OF assms] by (simp add: round64_def)
qed


lemma round64_tieI:
  assumes "2 powi e \<le> x" and "x < 2 powi (e + 1)" and "- 1022 \<le> e"
    and "round_half_even (x / 2 powi (e - 52)) = n"
    and "real_of_int n * 2 powi (e - 52) < 2 powi 1024"
  shows "round64 x = Fin (real_of_int n * 2 powi (e - 52))"
proof -
  have xpos: "0 < x" using assms(1) by (smt (verit) zero_less_power_int)
  have b: "binade x = e" using assms(1,2) by (rule binade_eqI)
  have m: "max e (- 1022) = e" using assms(3) by simp
  have "round64_pos x = Fin (real_of_int n * 2 powi (e - 52))"
    unfolding round64_pos_def b m Let_def assms(4) using assms(5) by simp
  then show ?thesis using xpos by (simp add: round64_def)
qed

lemma round64_zero: "round64 0 = Fin 0"
  by (simp add: round64_def)

lemma round64_one: "round64 (1) = Fin (1)"
  using round64_eqI(1)[of "0" "1" 4503599627370496]
  by simp

lemma round64_two: "round64 (2) = Fin (2)"
  using round64_eqI(1)[of "1" "2" 4503599627370496]
  by simp

lemma round64_four: "round64 (4) = Fin (4)"
  using round64_eqI(1)[of "2" "4" 4503599627370496]
  by simp

lemma round64_eight: "round64 (8) = Fin (8)"
  using round64_eqI(1)[of "3" "8" 4503599627370496]
  by simp

lemma round64_minus_one: "round64 (- 1) = Fin (- 1)"
  using round64_eqI(2)[of "0" "1" 4503599627370496]
  by simp

lemma round64_minus_two: "round64 (- 2) = Fin (- 2)"
  using round64_eqI(2)[of "1" "2" 4503599627370496]
  by simp

text \<open>
  The roundings met when the spectrum \<open>[d, d, d']\<close> is normalised in double precision,
  where \<open>d\<close> is the double nearest to 0.1 and \<open>d'\<close> the next double after it.
\<close>

lemma nc_sum1: "round64 (3602879701896397 / 36028797018963968) = Fin (3602879701896397 / 36028797018963968)"
  using round64_eqI(1)[of "-4" "3602879701896397 / 36028797018963968" 7205759403792794]
  by simp

lemma nc_sum2: "round64 (3602879701896397 / 18014398509481984) = Fin (3602879701896397 / 18014398509481984)"
  using round64_eqI(1)[of "-3" "3602879701896397 / 18014398509481984" 7205759403792794]
  by simp


lemma nc_mean: "round64 (1351079888211149 / 13510798882111488) = Fin (7205759403792795 / 72057594037927936)"
  using round64_eqI(1)[of "-4" "1351079888211149 / 13510798882111488" 7205759403792795]
  by simp

lemma nc_dev: "round64 (- (1 / 72057594037927936)) = Fin (- (1 / 72057594037927936))"
  using round64_eqI(2)[of "-56" "1 / 72057594037927936" 4503599627370496]
  by simp

lemma nc_sq: "round64 (1 / 5192296858534827628530496329220096) = Fin (1 / 5192296858534827628530496329220096)"
  using round64_eqI(1)[of "-112" "1 / 5192296858534827628530496329220096" 4503599627370496]
  by simp

lemma nc_ssq: "round64 (1 / 2596148429267413814265248164610048) = Fin (1 / 2596148429267413814265248164610048)"
  using round64_eqI(1)[of "-111" "1 / 2596148429267413814265248164610048" 4503599627370496]
  by simp






















section \<open>Properties of SNV\<close>

















text \<open>
  A constant spectrum need not have a computed standard deviation of zero. For the
  spectrum \<open>[d, d, d]\<close>, with \<open>d\<close> the double nearest to 0.1, the sum of the entries is
  rounded, the computed mean is the next double after \<open>d\<close>, the computed standard
  deviation is \<open>2^(-56)\<close>, and the spectrum comes back as \<open>[-1, -1, -1]\<close>.
\<close>

lemma ct_sum3: "round64 (10808639105689191 / 36028797018963968) = Fin (1351079888211149 / 4503599627370496)"
proof -
  have "round_half_even (10808639105689191 / 36028797018963968 / 2 powi (- 2 - 52))
      = 5404319552844596"
    by (simp add: round_half_even_def Let_def)
  from round64_tieI[of "- 2" "10808639105689191 / 36028797018963968" 5404319552844596, OF _ _ _ this]
  show ?thesis by simp
qed

lemma ct_ssq3: "round64 (3 / 5192296858534827628530496329220096) = Fin (3 / 5192296858534827628530496329220096)"
  using round64_eqI(1)[of "-111" "3 / 5192296858534827628530496329220096" 6755399441055744]
  by simp

lemma ct_u: "round64 (1 / 72057594037927936) = Fin (1 / 72057594037927936)"
  using round64_eqI(1)[of "-56" "1 / 72057594037927936" 4503599627370496]
  by simp

lemma ct_sqrt: "sqrt (1 / 5192296858534827628530496329220096) = 1 / 72057594037927936"
  by (rule real_sqrt_unique) (simp_all add: power2_eq_square)

lemma snv_constant_tenth:
  "np_mean binary64 [Fin (3602879701896397 / 36028797018963968),
      Fin (3602879701896397 / 36028797018963968), Fin (3602879701896397 / 36028797018963968)]
     = Fin (7205759403792795 / 72057594037927936)"
  "np_std binary64 [Fin (3602879701896397 / 36028797018963968),
      Fin (3602879701896397 / 36028797018963968), Fin (3602879701896397 / 36028797018963968)]
     = Fin (1 / 72057594037927936)"
  "snv_transform binary64 [[Fin (3602879701896397 / 36028797018963968),
      Fin (3602879701896397 / 36028797018963968), Fin (3602879701896397 / 36028797018963968)]]
     = [[Fin (- 1), Fin (- 1), Fin (- 1)]]"
proof -
  let ?d = "Fin (3602879701896397 / 36028797018963968)"
  have m: "mean_with round64 [?d, ?d, ?d] = Fin (7205759403792795 / 72057594037927936)"
    by (simp add: mean_with_def seq_sum_def nc_sum1 nc_sum2 ct_sum3 nc_mean)
  have sd: "std_with round64 [?d, ?d, ?d] = Fin (1 / 72057594037927936)"
    by (simp add: std_with_def m seq_sum_def ieee_sub_def nc_dev nc_sq nc_ssq ct_ssq3
        ct_sqrt ct_u)
  show "np_mean binary64 [?d, ?d, ?d] = Fin (7205759403792795 / 72057594037927936)"
    by (simp add: binary64_def numpy_with_def m)
  show "np_std binary64 [?d, ?d, ?d] = Fin (1 / 72057594037927936)"
    by (simp add: binary64_def numpy_with_def sd)
  show "snv_transform binary64 [[?d, ?d, ?d]] = [[Fin (- 1), Fin (- 1), Fin (- 1)]]"
    by (simp add: snv_transform_def snv_row_def binary64_def numpy_with_def m sd ieee_sub_def
        nc_dev round64_minus_one)
qed

lemma ieee_div_zero: "ieee_div rnd a (Fin 0) = NaN \<or> ieee_div rnd a (Fin 0) = PInf
    \<or> ieee_div rnd a (Fin 0) = NInf"
  by (cases a) (simp_all add: signed_inf_def)

text \<open>
  C4, as the code has it. When the standard deviation computed for a spectrum is
  zero, nothing is raised and no fallback applies: the row stays in the output, with
  as many entries as the spectrum, and none of them is a number; an entry whose
  deviation from the computed mean is zero is NaN, the result of \<open>0 / 0\<close>, the others
  are infinite or NaN.
\<close>

theorem snv_transform_zero_std:
  assumes "i < length spectra" and "np_std np (spectra ! i) = Fin 0"
  shows "length (snv_transform np spectra) = length spectra
         \<and> length (snv_transform np spectra ! i) = length (spectra ! i)
         \<and> (\<forall>v \<in> set (snv_transform np spectra ! i). v = NaN \<or> v = PInf \<or> v = NInf)
         \<and> (\<forall>j. j < length (spectra ! i)
                \<and> ieee_sub (np_round np) (spectra ! i ! j) (np_mean np (spectra ! i)) = Fin 0
              \<longrightarrow> snv_transform np spectra ! i ! j = NaN)"
proof -
  have row: "snv_transform np spectra ! i
      = map (\<lambda>x. ieee_div (np_round np)
                   (ieee_sub (np_round np) x (np_mean np (spectra ! i))) (Fin 0)) (spectra ! i)"
    using assms by (simp add: snv_transform_def snv_row_def)
  have "\<forall>v \<in> set (snv_transform np spectra ! i). v = NaN \<or> v = PInf \<or> v = NInf"
    unfolding row using ieee_div_zero by auto
  moreover have "\<forall>j. j < length (spectra ! i)
                \<and> ieee_sub (np_round np) (spectra ! i ! j) (np_mean np (spectra ! i)) = Fin 0
              \<longrightarrow> snv_transform np spectra ! i ! j = NaN"
    unfolding row by simp
  moreover have "length (snv_transform np spectra) = length spectra"
    by (simp add: snv_transform_def)
  moreover have "length (snv_transform np spectra ! i) = length (spectra ! i)"
    unfolding row by simp
  ultimately show ?thesis by blast
qed

lemma const_row_std64: "std_with round64 [Fin 2, Fin 2] = Fin 0"
  by (simp add: std_with_def mean_with_def seq_sum_def ieee_sub_def round64_zero round64_two
      round64_four)

lemma const_row_mean64: "mean_with round64 [Fin 2, Fin 2] = Fin 2"
  by (simp add: mean_with_def seq_sum_def round64_two round64_four)

theorem snv_transform_zero_std_witness:
  "np_std binary64 ([[Fin 2, Fin 2], [Fin 1, Fin 3]] ! 0) = Fin 0
   \<and> length (snv_transform binary64 [[Fin 2, Fin 2], [Fin 1, Fin 3]]) = 2
   \<and> snv_transform binary64 [[Fin 2, Fin 2], [Fin 1, Fin 3]] ! 0 = [NaN, NaN]"
proof -
  have a: "(0::nat) < length [[Fin 2, Fin 2], [Fin 1, Fin 3]]" by simp
  have b: "np_std binary64 ([[Fin 2, Fin 2], [Fin 1, Fin 3]] ! 0) = Fin 0"
    by (simp add: binary64_def numpy_with_def const_row_std64)
  have c: "ieee_sub (np_round binary64) (Fin 2) (np_mean binary64 [Fin 2, Fin 2]) = Fin 0"
    by (simp add: binary64_def numpy_with_def const_row_mean64 ieee_sub_def round64_zero)
  from snv_transform_zero_std[OF a b] have
    l: "length (snv_transform binary64 [[Fin 2, Fin 2], [Fin 1, Fin 3]]) = 2"
    and r: "length (snv_transform binary64 [[Fin 2, Fin 2], [Fin 1, Fin 3]] ! 0) = 2"
    and z: "\<And>j. j < 2 \<Longrightarrow> ieee_sub (np_round binary64) ([Fin 2, Fin 2] ! j)
                (np_mean binary64 [Fin 2, Fin 2]) = Fin 0
              \<Longrightarrow> snv_transform binary64 [[Fin 2, Fin 2], [Fin 1, Fin 3]] ! 0 ! j = NaN"
    by simp_all
  have z0: "snv_transform binary64 [[Fin 2, Fin 2], [Fin 1, Fin 3]] ! 0 ! 0 = NaN"
    using z[of 0] c by simp
  have z1: "snv_transform binary64 [[Fin 2, Fin 2], [Fin 1, Fin 3]] ! 0 ! 1 = NaN"
    using z[of 1] c by simp
  have "snv_transform binary64 [[Fin 2, Fin 2], [Fin 1, Fin 3]] ! 0 = [NaN, NaN]"
    using r z0 z1 by (intro nth_equalityI) (auto simp: less_Suc_eq numeral_2_eq_2)
  with b l show ?thesis by simp
qed

text \<open>
  C4, as the claim states it, fails: in double precision the constant spectrum
  \<open>[2, 2]\<close> has the computed standard deviation 0 and comes back as a row of NaN
  beside the normalised second spectrum, in an ordinary return value.
\<close>

theorem snv_transform_zero_std_counterexample:
  "np_std binary64 [Fin 2, Fin 2] = Fin 0
   \<and> snv_transform binary64 [[Fin 2, Fin 2], [Fin 1, Fin 3]]
       = [[NaN, NaN], [Fin (- 1), Fin 1]]"
  by (simp add: snv_transform_def snv_row_def binary64_def numpy_with_def std_with_def
      mean_with_def seq_sum_def ieee_sub_def round64_zero round64_one round64_two round64_four
      round64_minus_one)

section \<open>Properties of the scaler\<close>

lemma fit_lengths:
  assumes "fit D = Inr sc"
  shows "length (sc_scale sc) = length (sc_mean sc)" and "0 \<notin> set (sc_scale sc)"
  using assms by (auto simp: fit_def split: list.splits if_splits)

lemma zip_round_trip:
  assumes "length x = length ms" and "length ms = length ss" and "0 \<notin> set ss"
  shows "map (\<lambda>(v, m, s). v * s + m) (zip (map (\<lambda>(v, m, s). (v - m) / s) (zip x (zip ms ss))) (zip ms ss)) = (x::real list)"
  using assms
proof (induction x ms ss rule: list_induct3)
  case Nil
  show ?case by simp
next
  case (Cons v x m ms s ss)
  then show ?case by simp
qed

lemma inverse_transform_row:
  assumes "length (sc_scale sc) = length (sc_mean sc)" and "0 \<notin> set (sc_scale sc)"
    and "length x = length (sc_mean sc)"
  shows "inverse_row sc (transform_row sc x) = x"
  unfolding inverse_row_def transform_row_def
  using assms by (intro zip_round_trip) auto

lemma length_transform_row:
  "length (sc_scale sc) = length (sc_mean sc) \<Longrightarrow> length x = length (sc_mean sc)
   \<Longrightarrow> length (transform_row sc x) = length (sc_mean sc)"
  by (simp add: transform_row_def)

lemma length_inverse_row:
  "length (sc_scale sc) = length (sc_mean sc) \<Longrightarrow> length x = length (sc_mean sc)
   \<Longrightarrow> length (inverse_row sc x) = length (sc_mean sc)"
  by (simp add: inverse_row_def)

lemma transform_inverse_rows:
  assumes "length (sc_scale sc) = length (sc_mean sc)" and "0 \<notin> set (sc_scale sc)"
    and "rectangular (length (sc_mean sc)) X"
  shows "rectangular (length (sc_mean sc)) (map (transform_row sc) X)"
    and "map (inverse_row sc) (map (transform_row sc) X) = X"
proof -
  show "rectangular (length (sc_mean sc)) (map (transform_row sc) X)"
    using assms by (auto simp: rectangular_def list_all_iff length_transform_row)
  have "\<And>x. x \<in> set X \<Longrightarrow> inverse_row sc (transform_row sc x) = x"
    using assms by (auto simp: rectangular_def list_all_iff intro: inverse_transform_row)
  then show "map (inverse_row sc) (map (transform_row sc) X) = X"
    by (simp add: map_idI)
qed

lemma eval_loop_eq:
  "eval_loop f crit bs (l, P, L) =
     (foldl fl_add l (map (\<lambda>b. crit (f (fst b)) (snd b)) bs), P @ map (\<lambda>b. f (fst b)) bs, L @ map snd bs)"
  by (induction bs arbitrary: l P L) (auto simp: Let_def)


text \<open>
  C9. For a scaler fitted on any table and any batch of vectors of the fitted width,
  \<open>transform\<close> succeeds and \<open>inverse_transform\<close> gives the batch back, exactly on
  reals (a constant feature is scaled by 1, so no feature is excluded). And when the
  labels of the test loader are standardised targets, \<open>evaluate_model\<close> returns those
  targets in their physical units, beside the inverse-transformed predictions.
\<close>

theorem scaler_round_trip:
  assumes fitted: "fit D = Inr sc"
    and X: "X \<noteq> []" "rectangular (length (sc_mean sc)) X"
    and loader: "map snd test_loader = map (map (transform_row sc)) target_batches"
    and targets: "concat target_batches \<noteq> []"
      "rectangular (length (sc_mean sc)) (concat target_batches)"
    and outputs: "concat (map (\<lambda>b. f (fst b)) test_loader) \<noteq> []"
      "rectangular (length (sc_mean sc)) (concat (map (\<lambda>b. f (fst b)) test_loader))"
  shows "(\<exists>Z. transform sc X = Inr Z \<and> inverse_transform sc Z = Inr X)
       \<and> evaluate_model f criterion test_loader (Some sc)
           = Inr (map (inverse_row sc) (concat (map (\<lambda>b. f (fst b)) test_loader)),
                  concat target_batches)"
proof
  note sc = fit_lengths[OF fitted]
  have "transform sc X = Inr (map (transform_row sc) X)"
    using X by (simp add: transform_def)
  moreover have "inverse_transform sc (map (transform_row sc) X) = Inr X"
    using X transform_inverse_rows[OF sc X(2)] by (simp add: inverse_transform_def)
  ultimately show "\<exists>Z. transform sc X = Inr Z \<and> inverse_transform sc Z = Inr X"
    by blast
next
  note sc = fit_lengths[OF fitted]
  let ?P = "concat (map (\<lambda>b. f (fst b)) test_loader)"
  let ?L = "concat (map snd test_loader)"
  have labels: "?L = map (transform_row sc) (concat target_batches)"
    by (simp add: loader map_concat)
  have ne: "test_loader \<noteq> []" using outputs(1) by auto
  have P: "inverse_transform sc ?P = Inr (map (inverse_row sc) ?P)"
    using outputs by (simp add: inverse_transform_def)
  have L: "inverse_transform sc ?L = Inr (concat target_batches)"
    using targets transform_inverse_rows[OF sc targets(2)]
    by (simp add: inverse_transform_def labels)
  show "evaluate_model f criterion test_loader (Some sc)
          = Inr (map (inverse_row sc) ?P, concat target_batches)"
    using ne P L by (simp add: evaluate_model_def eval_loop_eq py_div_def)
qed

lemma fit_example: "fit [[0, 10], [4, 10]] = Inr \<lparr>sc_mean = [2, 10], sc_scale = [2, 1]\<rparr>"
proof -
  have "sqrt 4 = 2" using real_sqrt_abs[of 2] by simp
  then show ?thesis
    by (simp add: fit_def rectangular_def columns_def column_def std_def mean_def upt_rec)
qed


theorem scaler_round_trip_witness:
  "fit [[0, 10], [4, 10]] = Inr \<lparr>sc_mean = [2, 10], sc_scale = [2, 1]\<rparr>
   \<and> (\<exists>Z. transform \<lparr>sc_mean = [2, 10], sc_scale = [2, 1]\<rparr> [[6, 7]] = Inr Z
          \<and> inverse_transform \<lparr>sc_mean = [2, 10], sc_scale = [2, 1]\<rparr> Z = Inr [[6, 7]])
   \<and> evaluate_model (\<lambda>inputs. inputs) (\<lambda>outputs labels. Fin 0) [([[1, 1]], [[1, 0]])]
         (Some \<lparr>sc_mean = [2, 10], sc_scale = [2, 1]\<rparr>)
       = Inr ([[4, 11]], [[4, 10]])"
proof -
  let ?sc = "\<lparr>sc_mean = [2, 10], sc_scale = [2, 1]\<rparr>"
  have a: "fit [[0, 10], [4, 10]] = Inr ?sc" by (rule fit_example)
  have b: "[[6, 7::real]] \<noteq> []" "rectangular (length (sc_mean ?sc)) [[6, 7::real]]"
    by (simp_all add: rectangular_def)
  have c: "map snd [([[1, 1::real]], [[1, 0::real]])] = map (map (transform_row ?sc)) [[[4, 10]]]"
    by (simp add: transform_row_def)
  have d: "concat [[[4, 10::real]]] \<noteq> []" "rectangular (length (sc_mean ?sc)) (concat [[[4, 10::real]]])"
    by (simp_all add: rectangular_def)
  have e: "concat (map (\<lambda>b. (\<lambda>inputs. inputs) (fst b)) [([[1, 1::real]], [[1, 0::real]])]) \<noteq> []"
    "rectangular (length (sc_mean ?sc))
       (concat (map (\<lambda>b. (\<lambda>inputs. inputs) (fst b)) [([[1, 1::real]], [[1, 0::real]])]))"
    by (simp_all add: rectangular_def)
  from scaler_round_trip[OF a b c d e, of "\<lambda>outputs labels. Fin 0"] a
  show ?thesis by (simp add: inverse_row_def)
qed

section \<open>Properties of the split\<close>

lemma test_size_bounds:
  assumes "2 \<le> n"
  shows "0 < nat \<lceil>0.3 * real n\<rceil>" and "nat \<lceil>0.3 * real n\<rceil> < n"
proof -
  have "0 < 0.3 * real n" using assms by simp
  then have "0 < \<lceil>0.3 * real n\<rceil>" by (simp add: ceiling_less_iff less_ceiling_iff)
  then show "0 < nat \<lceil>0.3 * real n\<rceil>" by simp
  have "0.3 * real n \<le> real n - 1" using assms by simp
  then have "0.3 * real n \<le> real_of_int (int n - 1)" by simp
  then have "\<lceil>0.3 * real n\<rceil> \<le> int n - 1" by (simp only: ceiling_le_iff)
  then show "nat \<lceil>0.3 * real n\<rceil> < n" by linarith
qed

lemma train_size_floor:
  "int n - \<lceil>0.3 * real n\<rceil> = \<lfloor>0.7 * real n\<rfloor>"
proof -
  have "0.7 * real n = real_of_int (int n) + (- (0.3 * real n))" by simp
  then have "\<lfloor>0.7 * real n\<rfloor> = \<lfloor>real_of_int (int n) + (- (0.3 * real n))\<rfloor>"
    by (rule arg_cong)
  also have "\<dots> = int n + \<lfloor>- (0.3 * real n)\<rfloor>"
    by (rule int_add_floor[symmetric])
  finally show ?thesis by (simp add: ceiling_def)
qed

lemma split_sizes_ok:
  assumes "2 \<le> n"
  shows "split_sizes n = Inr (n - nat \<lceil>0.3 * real n\<rceil>, nat \<lceil>0.3 * real n\<rceil>)"
  using test_size_bounds[OF assms] by (simp add: split_sizes_def Let_def)

lemma take_rows_ok:
  "set idx \<subseteq> {0..<length X} \<Longrightarrow> take_rows idx X = Inr (map (\<lambda>i. X ! i) idx)"
  by (auto simp: take_rows_def list_all_iff)


text \<open>
  C6, as the code has it. For a dataset of \<open>n \<ge> 2\<close> samples and the permutation the
  seeded generator gives for \<open>n\<close>, the split succeeds; the index assignment depends on
  \<open>n\<close> and the generator only, and each partition is the rows at its indices; no index
  is in both partitions, together they are all indices, the sizes sum to \<open>n\<close>; and the
  rounding goes to the test partition: its size is \<open>0.3 n\<close> rounded up, the train
  partition's is \<open>0.7 n\<close> rounded down.
\<close>

theorem train_test_split_partition:
  assumes n: "2 \<le> n"
    and perm: "distinct (perm n)" "set (perm n) = {0..<n}"
    and X: "length X = n" and Y: "length Y = n"
  shows "\<exists>train test.
           split_indices perm n = Inr (train, test)
         \<and> train_test_split perm X Y
             = Inr (map (\<lambda>i. X ! i) train, map (\<lambda>i. X ! i) test,
                    map (\<lambda>i. Y ! i) train, map (\<lambda>i. Y ! i) test)
         \<and> set train \<inter> set test = {} \<and> set train \<union> set test = {0..<n}
         \<and> length train + length test = n
         \<and> int (length test) = \<lceil>0.3 * real n\<rceil> \<and> int (length train) = \<lfloor>0.7 * real n\<rfloor>"
proof -
  define t where "t = nat \<lceil>0.3 * real n\<rceil>"
  define test where "test = take t (perm n)"
  define train where "train = take (n - t) (drop t (perm n))"
  have b: "0 < t" "t < n" using test_size_bounds[OF n] by (simp_all add: t_def)
  have len: "length (perm n) = n"
    using perm distinct_card[of "perm n"] by simp
  have train: "train = drop t (perm n)" using len by (simp add: train_def)
  have idx: "split_indices perm n = Inr (train, test)"
    by (simp add: split_indices_def split_sizes_ok[OF n] train_def test_def t_def)
  have disj: "set train \<inter> set test = {}"
    unfolding train test_def
    using set_take_disj_set_drop_if_distinct[OF perm(1), of t t] by auto
  have "set test \<union> set (drop t (perm n)) = set (perm n)"
    unfolding test_def by (metis append_take_drop_id set_append)
  then have un: "set train \<union> set test = {0..<n}"
    unfolding train using perm(2) by auto
  have sub: "set train \<subseteq> {0..<n}" "set test \<subseteq> {0..<n}" using un by auto
  have rows: "take_rows train X = Inr (map (\<lambda>i. X ! i) train)"
    "take_rows test X = Inr (map (\<lambda>i. X ! i) test)"
    "take_rows train Y = Inr (map (\<lambda>i. Y ! i) train)"
    "take_rows test Y = Inr (map (\<lambda>i. Y ! i) test)"
    using sub X Y by (simp_all add: take_rows_ok)
  have split: "train_test_split perm X Y
      = Inr (map (\<lambda>i. X ! i) train, map (\<lambda>i. X ! i) test,
             map (\<lambda>i. Y ! i) train, map (\<lambda>i. Y ! i) test)"
    unfolding train_test_split_def using X Y by (simp add: idx rows)
  have ltest: "length test = t" using len b by (simp add: test_def)
  have ltrain: "length train = n - t" using len by (simp add: train_def)
  have sum: "length train + length test = n"
    using b unfolding ltest ltrain by simp
  have ctest: "int (length test) = \<lceil>0.3 * real n\<rceil>"
    unfolding ltest by (simp add: t_def)
  have "int (n - t) = int n - \<lceil>0.3 * real n\<rceil>" using b by (simp add: t_def)
  then have ctrain: "int (length train) = \<lfloor>0.7 * real n\<rfloor>"
    unfolding ltrain by (simp only: train_size_floor)
  from idx split disj un sum ctest ctrain show ?thesis by blast
qed

theorem train_test_split_partition_witness:
  "split_indices (\<lambda>n. rev [0..<n]) 5 = Inr ([2, 1, 0], [4, 3])
   \<and> train_test_split (\<lambda>n. rev [0..<n]) [10, 11, 12, 13, 14::nat] [''a'', ''b'', ''c'', ''d'', ''e'']
       = Inr ([12, 11, 10], [14, 13], [''c'', ''b'', ''a''], [''e'', ''d''])"
proof -
  have n: "2 \<le> (5::nat)" by simp
  have p: "distinct ((\<lambda>n. rev [0..<n]) 5)" "set ((\<lambda>n. rev [0..<n]) 5) = {0..<5}"
    by simp_all
  have X: "length [10, 11, 12, 13, 14::nat] = 5" by simp
  have Y: "length [''a'', ''b'', ''c'', ''d'', ''e''] = 5" by simp
  have idx: "split_indices (\<lambda>n. rev [0..<n]) 5 = Inr ([2, 1, 0], [4, 3])"
    by (simp add: split_indices_def split_sizes_def upt_rec)
  from train_test_split_partition[of 5 "\<lambda>n. rev [0..<n]", OF n p X Y] idx
  show ?thesis by simp
qed

text \<open>
  C6, as the claim states it, fails in its last part. For \<open>n = 5\<close> the exact shares are
  3.5 and 1.5; the split gives 3 training and 2 test samples, so the rounding has gone
  to the test partition, not to the larger one.
\<close>

theorem train_test_split_rounding_counterexample:
  "split_sizes 5 = Inr (3, 2) \<and> (3::int) < \<lceil>0.7 * real 5\<rceil> \<and> \<lfloor>0.3 * real 5\<rfloor> < (2::int)"
  by (simp add: split_sizes_def)

section \<open>Properties of the standardization\<close>

lemma fit_transform_fit: "fit_transform X = Inr (sc, Z) \<Longrightarrow> fit X = Inr sc"
  by (auto simp: fit_transform_def split: sum.splits)

lemma nan_fit_transform_fit: "nan_fit_transform X = Inr (sc, Z) \<Longrightarrow> nan_fit X = Inr sc"
  by (auto simp: nan_fit_transform_def split: sum.splits)

lemma fit_mean: "fit X = Inr sc \<Longrightarrow> sc_mean sc = map mean (columns X)"
  by (auto simp: fit_def split: list.splits if_splits)

lemma nan_fit_mean: "nan_fit X = Inr sc \<Longrightarrow> ns_mean sc = map nan_mean (nan_columns X)"
  by (auto simp: nan_fit_def split: list.splits if_splits)

lemma finite_values_Fin: "finite_values (map Fin c) = c"
  by (induction c) simp_all

lemma nan_mean_Fin: "c \<noteq> [] \<Longrightarrow> nan_mean (map Fin c) = Fin (mean c)"
  by (cases c) (simp_all add: nan_mean_def finite_values_Fin)

lemma nan_columns_Fin:
  assumes "Z \<noteq> []" and "rectangular (length (hd Z)) Z"
  shows "map nan_mean (nan_columns (map (map Fin) Z)) = map (\<lambda>c. Fin (mean c)) (columns Z)"
proof -
  have hd: "length (hd (map (map Fin) Z)) = length (hd Z)"
    using assms(1) by (cases Z) simp_all
  have ne: "column j Z \<noteq> []" for j using assms(1) by (simp add: column_def)
  have col: "map (\<lambda>r. r ! j) (map (map Fin) Z) = map Fin (column j Z)"
    if "j < length (hd Z)" for j
  proof -
    have "\<And>r. r \<in> set Z \<Longrightarrow> map Fin r ! j = Fin (r ! j)"
      using assms(2) that by (simp add: rectangular_def list_all_iff)
    then show ?thesis by (simp add: column_def)
  qed
  have "nan_mean (map (\<lambda>r. r ! j) (map (map Fin) Z)) = Fin (mean (column j Z))"
    if "j < length (hd Z)" for j
    unfolding col[OF that] using ne by (rule nan_mean_Fin)
  then show ?thesis
    unfolding nan_columns_def columns_def hd by (simp add: comp_def)
qed

lemma rectangular_Fin: "rectangular w (map (map Fin) Z) = rectangular w Z"
  by (simp add: rectangular_def list_all_iff)

lemma nan_fit_finite_table:
  assumes "nan_fit (map (map Fin) Z) = Inr sc"
  shows "ns_mean sc = map (\<lambda>c. Fin (mean c)) (columns Z)"
proof -
  have ne: "Z \<noteq> []" using assms by (auto simp: nan_fit_def)
  then obtain r rs where Z: "Z = r # rs" by (cases Z) auto
  have "rectangular (length (map Fin r)) (map (map Fin) Z)"
    using assms unfolding Z by (auto simp: nan_fit_def split: if_splits)
  then have rect: "rectangular (length (hd Z)) Z"
    by (simp add: Z rectangular_def list_all_iff)
  show ?thesis
    using nan_fit_mean[OF assms] nan_columns_Fin[OF ne rect] by simp
qed

lemma load_scalers:
  assumes "load_and_preprocess_data savgol np perm sm snv spectra targets = Inr d"
  shows "\<exists>table. preprocess savgol np sm snv spectra = Inr table
           \<and> nan_fit table = Inr (scaler_spectra d) \<and> fit targets = Inr (scaler_targets d)"
  using assms unfolding load_and_preprocess_data_def
  by (auto split: sum.splits prod.splits dest: fit_transform_fit nan_fit_transform_fit)

text \<open>
  C1, as the code has it. Both scalers are fitted before the split, on every row of
  the table: the spectrum scaler on all preprocessed spectra, the target scaler on all
  targets. Each mean of the spectrum scaler is the mean of the numbers in its column
  over all rows, so where the preprocessed table holds numbers only it is the column
  mean over all samples, as each mean of the target scaler is. The fitted statistics
  do not depend on which rows the split then assigns to the test partition.
\<close>

theorem load_fits_on_whole_table:
  assumes "load_and_preprocess_data savgol np perm sm snv spectra targets = Inr d"
  shows "\<exists>table. preprocess savgol np sm snv spectra = Inr table
           \<and> nan_fit table = Inr (scaler_spectra d) \<and> fit targets = Inr (scaler_targets d)
           \<and> ns_mean (scaler_spectra d) = map nan_mean (nan_columns table)
           \<and> (\<forall>Z. table = map (map Fin) Z \<longrightarrow>
                 ns_mean (scaler_spectra d) = map (\<lambda>c. Fin (mean c)) (columns Z))
           \<and> sc_mean (scaler_targets d) = map mean (columns targets)
           \<and> (\<forall>perm' d'.
                 load_and_preprocess_data savgol np perm' sm snv spectra targets = Inr d'
                 \<longrightarrow> scaler_spectra d' = scaler_spectra d \<and> scaler_targets d' = scaler_targets d)"
proof -
  from load_scalers[OF assms] obtain table where
    p: "preprocess savgol np sm snv spectra = Inr table"
    and fs: "nan_fit table = Inr (scaler_spectra d)" and ft: "fit targets = Inr (scaler_targets d)"
    by blast
  have fin: "\<forall>Z. table = map (map Fin) Z \<longrightarrow>
      ns_mean (scaler_spectra d) = map (\<lambda>c. Fin (mean c)) (columns Z)"
    using fs nan_fit_finite_table by blast
  have "scaler_spectra d' = scaler_spectra d \<and> scaler_targets d' = scaler_targets d"
    if "load_and_preprocess_data savgol np perm' sm snv spectra targets = Inr d'" for perm' d'
    using load_scalers[OF that] p fs ft by auto
  with p fs ft fin nan_fit_mean[OF fs] fit_mean[OF ft] show ?thesis by blast
qed


lemma snv_example:
  "snv_transform binary64 [[Fin 2, Fin 2], [Fin 1, Fin 3], [Fin 0, Fin 4], [Fin 1, Fin 3]]
     = [[NaN, NaN], [Fin (- 1), Fin 1], [Fin (- 1), Fin 1], [Fin (- 1), Fin 1]]"
  by (simp add: snv_transform_def snv_row_def binary64_def numpy_with_def std_with_def
      mean_with_def seq_sum_def ieee_sub_def round64_zero round64_one round64_two round64_four
      round64_eight round64_minus_one round64_minus_two)

lemma nan_fit_example:
  "nan_fit [[NaN, NaN], [Fin (- 1), Fin 1], [Fin (- 1), Fin 1], [Fin (- 1), Fin 1]]
     = Inr \<lparr>ns_mean = [Fin (- 1), Fin 1], ns_scale = [Fin 1, Fin 1]\<rparr>"
  by (simp add: nan_fit_def rectangular_def has_inf_def nan_columns_def nan_mean_def
      nan_scale_def std_def mean_def upt_rec)

lemma load_example:
  "load_and_preprocess_data Inr binary64 (\<lambda>n. rev [0..<n]) False True
     [[Fin 2, Fin 2], [Fin 1, Fin 3], [Fin 0, Fin 4], [Fin 1, Fin 3]] [[1], [3], [1], [3]]
     = Inr \<lparr>X_train = [[Fin 0, Fin 0], [NaN, NaN]], X_test = [[Fin 0, Fin 0], [Fin 0, Fin 0]],
            y_train = [[1], [- 1]], y_test = [[1], [- 1]],
            scaler_spectra = \<lparr>ns_mean = [Fin (- 1), Fin 1], ns_scale = [Fin 1, Fin 1]\<rparr>,
            scaler_targets = \<lparr>sc_mean = [2], sc_scale = [1]\<rparr>\<rparr>"
  by (simp add: load_and_preprocess_data_def preprocess_def snv_example nan_fit_transform_def
      nan_fit_example nan_transform_def nan_transform_row_def has_inf_def
      fit_transform_def fit_def transform_def transform_row_def rectangular_def columns_def
      column_def std_def mean_def train_test_split_def split_indices_def split_sizes_def
      take_rows_def upt_rec)


theorem load_fits_on_whole_table_witness:
  "load_and_preprocess_data Inr binary64 (\<lambda>n. rev [0..<n]) False True
     [[Fin 2, Fin 2], [Fin 1, Fin 3], [Fin 0, Fin 4], [Fin 1, Fin 3]] [[1], [3], [1], [3]]
     = Inr \<lparr>X_train = [[Fin 0, Fin 0], [NaN, NaN]], X_test = [[Fin 0, Fin 0], [Fin 0, Fin 0]],
            y_train = [[1], [- 1]], y_test = [[1], [- 1]],
            scaler_spectra = \<lparr>ns_mean = [Fin (- 1), Fin 1], ns_scale = [Fin 1, Fin 1]\<rparr>,
            scaler_targets = \<lparr>sc_mean = [2], sc_scale = [1]\<rparr>\<rparr>
   \<and> nan_fit [[NaN, NaN], [Fin (- 1), Fin 1], [Fin (- 1), Fin 1], [Fin (- 1), Fin 1]]
       = Inr \<lparr>ns_mean = [Fin (- 1), Fin 1], ns_scale = [Fin 1, Fin 1]\<rparr>
   \<and> fit [[1], [3], [1], [3]] = Inr \<lparr>sc_mean = [2], sc_scale = [1]\<rparr>"
proof -
  let ?d = "\<lparr>X_train = [[Fin 0, Fin 0], [NaN, NaN]], X_test = [[Fin 0, Fin 0], [Fin 0, Fin 0]],
            y_train = [[1], [- 1]], y_test = [[1], [- 1]],
            scaler_spectra = \<lparr>ns_mean = [Fin (- 1), Fin 1], ns_scale = [Fin 1, Fin 1]\<rparr>,
            scaler_targets = \<lparr>sc_mean = [2], sc_scale = [1]\<rparr>\<rparr>"
  from load_fits_on_whole_table[OF load_example] obtain table where
    p: "preprocess Inr binary64 False True
          [[Fin 2, Fin 2], [Fin 1, Fin 3], [Fin 0, Fin 4], [Fin 1, Fin 3]] = Inr table"
    and f: "nan_fit table = Inr (scaler_spectra ?d)"
      "fit [[1], [3], [1], [3]] = Inr (scaler_targets ?d)"
    by blast
  from p have "table = [[NaN, NaN], [Fin (- 1), Fin 1], [Fin (- 1), Fin 1], [Fin (- 1), Fin 1]]"
    by (simp add: preprocess_def snv_example)
  with f load_example show ?thesis by simp
qed

text \<open>
  C1, as the claim states it, fails. For two samples the seeded generator gives the
  permutation \<open>[1, 0]\<close>: sample 1 is held out and sample 0 is the training set. The
  first two tables below have the same training spectrum \<open>[2]\<close> and differ in the
  held-out spectrum only, yet the fitted means differ (1 and 3), and neither is the
  mean 2 of the training partition. The last two tables show the same for the other
  permutation of two samples, where sample 0 is held out.
\<close>

theorem load_fit_counterexample:
  "split_indices (\<lambda>n. [1, 0]) 2 = Inr ([0], [1])
   \<and> load_and_preprocess_data Inr binary64 (\<lambda>n. [1, 0]) False False [[Fin 2], [Fin 0]] [[1], [3]]
     = Inr \<lparr>X_train = [[Fin 1]], X_test = [[Fin (- 1)]], y_train = [[- 1]], y_test = [[1]],
            scaler_spectra = \<lparr>ns_mean = [Fin 1], ns_scale = [Fin 1]\<rparr>,
            scaler_targets = \<lparr>sc_mean = [2], sc_scale = [1]\<rparr>\<rparr>
   \<and> load_and_preprocess_data Inr binary64 (\<lambda>n. [1, 0]) False False [[Fin 2], [Fin 4]] [[1], [3]]
     = Inr \<lparr>X_train = [[Fin (- 1)]], X_test = [[Fin 1]], y_train = [[- 1]], y_test = [[1]],
            scaler_spectra = \<lparr>ns_mean = [Fin 3], ns_scale = [Fin 1]\<rparr>,
            scaler_targets = \<lparr>sc_mean = [2], sc_scale = [1]\<rparr>\<rparr>
   \<and> nan_fit [[Fin 2]] = Inr \<lparr>ns_mean = [Fin 2], ns_scale = [Fin 1]\<rparr>
   \<and> split_indices (\<lambda>n. [0, 1]) 2 = Inr ([1], [0])
   \<and> load_and_preprocess_data Inr binary64 (\<lambda>n. [0, 1]) False False [[Fin 0], [Fin 2]] [[1], [3]]
     = Inr \<lparr>X_train = [[Fin 1]], X_test = [[Fin (- 1)]], y_train = [[1]], y_test = [[- 1]],
            scaler_spectra = \<lparr>ns_mean = [Fin 1], ns_scale = [Fin 1]\<rparr>,
            scaler_targets = \<lparr>sc_mean = [2], sc_scale = [1]\<rparr>\<rparr>
   \<and> load_and_preprocess_data Inr binary64 (\<lambda>n. [0, 1]) False False [[Fin 4], [Fin 2]] [[1], [3]]
     = Inr \<lparr>X_train = [[Fin (- 1)]], X_test = [[Fin 1]], y_train = [[1]], y_test = [[- 1]],
            scaler_spectra = \<lparr>ns_mean = [Fin 3], ns_scale = [Fin 1]\<rparr>,
            scaler_targets = \<lparr>sc_mean = [2], sc_scale = [1]\<rparr>\<rparr>"
  by (simp add: load_and_preprocess_data_def preprocess_def nan_fit_transform_def nan_fit_def
      nan_transform_def nan_transform_row_def has_inf_def nan_columns_def nan_mean_def
      nan_scale_def fit_transform_def fit_def transform_def transform_row_def rectangular_def
      columns_def column_def std_def mean_def train_test_split_def split_indices_def
      split_sizes_def take_rows_def upt_rec)

section \<open>Properties of the forward pass\<close>

lemma pooled_length: "2 \<le> n \<Longrightarrow> (n - 2) div 2 + 1 = n div (2::nat)"
  by (simp add: le_div_geq)

lemma conv_stack_shape_ok:
  assumes "2 \<le> n"
  shows "conv_stack_shape m (b, n) = Inr (b, 128, n div 2)"
proof -
  have l: "b * n \<noteq> 1" using assms by simp
  show ?thesis
    using assms l
    by (simp add: conv_stack_shape_def conv1d_def batch_norm_3d_def same_shape_def
        max_pool1d_def pooled_length)
qed

text \<open>
  C7, as the code has it. For a batch of shape \<open>(B, N)\<close> with \<open>N\<close> the configured input
  size, \<open>N \<ge> 2\<close>, \<open>B \<ge> 1\<close>, and \<open>B \<ge> 2\<close> when the model is in training mode, the
  flattened representation has shape \<open>(B, 128 * (N div 2))\<close> and \<open>forward\<close> returns a
  batch of shape \<open>(B, output_size)\<close>.
\<close>

theorem forward_shape_ok:
  assumes "input_size m = n" and "2 \<le> n" and "1 \<le> b" and "training m \<longrightarrow> 2 \<le> b"
  shows "flatten_shape m (b, n) = Inr (b, 128 * (n div 2))
         \<and> forward_shape m (b, n) = Inr (b, output_size m)"
proof -
  have h: "1 \<le> n div 2" using assms(2) by (simp add: le_div_geq)
  have flat: "flatten_shape m (b, n) = Inr (b, 128 * (n div 2))"
    using assms(3) h
    by (simp add: flatten_shape_def conv_stack_shape_ok[OF assms(2)] view_flat_def)
  have "forward_shape m (b, n) = Inr (b, output_size m)"
    using assms(1,3,4)
    by (auto simp: forward_shape_def flat fc_input_size_def linear_def batch_norm_2d_def
        same_shape_def)
  with flat show ?thesis by simp
qed

theorem forward_shape_ok_witness:
  "flatten_shape \<lparr>input_size = 701, output_size = 4, training = True\<rparr> (8, 701) = Inr (8, 44800)
   \<and> forward_shape \<lparr>input_size = 701, output_size = 4, training = True\<rparr> (8, 701) = Inr (8, 4)
   \<and> forward_shape \<lparr>input_size = 701, output_size = 4, training = False\<rparr> (1, 701) = Inr (1, 4)"
  using forward_shape_ok[of "\<lparr>input_size = 701, output_size = 4, training = True\<rparr>" 701 8]
    forward_shape_ok[of "\<lparr>input_size = 701, output_size = 4, training = False\<rparr>" 701 1]
  by simp

text \<open>
  C7, as the claim states it, fails. A batch of one sample in training mode is refused
  by the batch normalisation after the first linear layer, and a spectrum of one
  channel is refused by the pooling layer, in either mode.
\<close>

theorem forward_shape_counterexample:
  "forward_shape \<lparr>input_size = 4, output_size = 4, training = True\<rparr> (1, 4) = Inl ValueError
   \<and> forward_shape \<lparr>input_size = 1, output_size = 4, training = False\<rparr> (3, 1) = Inl RuntimeError"
  by (simp add: forward_shape_def flatten_shape_def conv_stack_shape_def conv1d_def
      batch_norm_3d_def batch_norm_2d_def same_shape_def max_pool1d_def view_flat_def
      linear_def fc_input_size_def)

section \<open>Properties of the training loop\<close>

lemma train_epoch_nonempty:
  assumes "train_loader T e \<noteq> []"
  shows "\<exists>p opt l. train_epoch T e x = Inr ((p, opt), l)"
  using assms by (auto simp: train_epoch_def py_div_def split: prod.splits)

lemma epoch_step_improve:
  assumes "train_epoch T e (params s, optim s) = Inr ((p, opt), l)" and "fl_lt l (best_loss s)"
  shows "epoch_step T e s =
           Inr (False, s\<lparr>params := p, optim := opt, loss_history := loss_history s @ [l],
                         best_loss := l, counter := 0, best_model_pth := Some p\<rparr>)"
  using assms by (simp add: epoch_step_def)

lemma epoch_step_stall:
  assumes "train_epoch T e (params s, optim s) = Inr ((p, opt), l)" and "\<not> fl_lt l (best_loss s)"
  shows "epoch_step T e s =
           Inr (patience \<le> counter s + 1,
                s\<lparr>params := p, optim := opt, loss_history := loss_history s @ [l],
                  counter := counter s + 1\<rparr>)"
  using assms by (simp add: epoch_step_def)

lemma epoch_step_result:
  assumes "epoch_step T e s = Inr (stop, s')"
  shows "\<exists>l. train_epoch T e (params s, optim s) = Inr ((params s', optim s'), l)
           \<and> loss_history s' = loss_history s @ [l]"
  using assms by (auto simp: epoch_step_def Let_def split: sum.splits prod.splits if_splits)

lemma epoch_step_keeps_checkpoint:
  assumes "epoch_step T e s = Inr (stop, s')" and "best_model_pth s \<noteq> None"
  shows "best_model_pth s' \<noteq> None"
  using assms by (auto simp: epoch_step_def Let_def split: sum.splits prod.splits if_splits)

lemma epoch_loop_keeps_checkpoint:
  assumes "best_model_pth s \<noteq> None"
    and "\<forall>e. e0 \<le> e \<and> e < e0 + r \<longrightarrow> train_loader T e \<noteq> []"
  shows "\<exists>s'. epoch_loop T e0 r s = Inr s' \<and> best_model_pth s' \<noteq> None"
  using assms
proof (induction r arbitrary: e0 s)
  case 0
  then show ?case by simp
next
  case (Suc r)
  have "train_loader T e0 \<noteq> []" using Suc.prems(2) by simp
  from train_epoch_nonempty[OF this] obtain p opt l where
    te: "train_epoch T e0 (params s, optim s) = Inr ((p, opt), l)" by blast
  then obtain stop s1 where st: "epoch_step T e0 s = Inr (stop, s1)"
    by (cases "fl_lt l (best_loss s)") (auto simp: epoch_step_improve epoch_step_stall)
  have ck: "best_model_pth s1 \<noteq> None"
    using epoch_step_keeps_checkpoint[OF st Suc.prems(1)] .
  show ?case
  proof (cases stop)
    case True
    then show ?thesis using st ck by simp
  next
    case False
    have "\<forall>e. Suc e0 \<le> e \<and> e < Suc e0 + r \<longrightarrow> train_loader T e \<noteq> []"
      using Suc.prems(2) by simp
    from Suc.IH[OF ck this] False st show ?thesis by simp
  qed
qed


text \<open>
  C3, as the code has it. For every run with at least one epoch and at least one batch
  in every epoch, if the mean loss of the first epoch compares below the sentinel
  \<open>+infinity\<close> (it is neither NaN nor \<open>+infinity\<close>), then the first epoch writes a
  checkpoint of the parameters it has reached, and the load after the loop succeeds,
  whether or not a checkpoint file was there before.
\<close>

theorem first_epoch_checkpoint:
  assumes "0 < epochs"
    and "\<forall>e. e < epochs \<longrightarrow> train_loader T e \<noteq> []"
    and "train_epoch T 0 (p0, opt0) = Inr ((p1, opt1), l)"
    and "fl_lt l PInf"
  shows "\<exists>s1 s. epoch_step T 0 (initial_state p0 opt0 file0) = Inr (False, s1)
            \<and> best_model_pth s1 = Some p1
            \<and> train_model T epochs p0 opt0 file0 = Inr s"
proof -
  let ?s0 = "initial_state p0 opt0 file0"
  let ?s1 = "?s0\<lparr>params := p1, optim := opt1, loss_history := loss_history ?s0 @ [l],
                  best_loss := l, counter := 0, best_model_pth := Some p1\<rparr>"
  obtain r where r: "epochs = Suc r" using assms(1) by (cases epochs) auto
  have te: "train_epoch T 0 (params ?s0, optim ?s0) = Inr ((p1, opt1), l)"
    using assms(3) by (simp add: initial_state_def)
  have lt: "fl_lt l (best_loss ?s0)"
    using assms(4) by (simp add: initial_state_def)
  have st: "epoch_step T 0 ?s0 = Inr (False, ?s1)"
    using epoch_step_improve[OF te lt] .
  have ck: "best_model_pth ?s1 \<noteq> None" by simp
  have "\<forall>e. Suc 0 \<le> e \<and> e < Suc 0 + r \<longrightarrow> train_loader T e \<noteq> []"
    using assms(2) r by simp
  from epoch_loop_keeps_checkpoint[OF ck this] obtain s' where
    loop: "epoch_loop T (Suc 0) r ?s1 = Inr s'" and ck': "best_model_pth s' \<noteq> None"
    by blast
  have "epoch_loop T 0 epochs ?s0 = Inr s'"
    unfolding r using st loop by simp
  then have "\<exists>s. train_model T epochs p0 opt0 file0 = Inr s"
    using ck' by (auto simp: train_model_def)
  with st show ?thesis by auto
qed

theorem first_epoch_checkpoint_witness:
  "\<exists>s1 s. epoch_step \<lparr>batch_step = (\<lambda>b (p, opt). ((Suc p, opt), Fin 1)), scheduler = None,
               train_loader = (\<lambda>e. [True])\<rparr> 0 (initial_state (0::nat) (5::nat) None)
             = Inr (False, s1)
         \<and> best_model_pth s1 = Some 1
         \<and> train_model \<lparr>batch_step = (\<lambda>b (p, opt). ((Suc p, opt), Fin 1)), scheduler = None,
               train_loader = (\<lambda>e. [True])\<rparr> 200 (0::nat) (5::nat) None = Inr s"
proof -
  let ?T = "\<lparr>batch_step = (\<lambda>b (p, opt). ((Suc p, opt), Fin 1)), scheduler = None,
             train_loader = (\<lambda>e. [True])\<rparr> :: (nat, nat, bool) trainer"
  have a: "0 < (200::nat)" by simp
  have b: "\<forall>e. e < (200::nat) \<longrightarrow> train_loader ?T e \<noteq> []" by simp
  have c: "train_epoch ?T 0 (0, 5) = Inr ((1, 5), Fin 1)"
    by (simp add: train_epoch_def py_div_def)
  have d: "fl_lt (Fin 1) PInf" by simp
  from first_epoch_checkpoint[OF a b c d, of None] show ?thesis .
qed

text \<open>
  C3, as the claim states it, fails: a first epoch whose mean loss is NaN does not
  compare below the sentinel, no checkpoint is written in the run, and the load after
  the loop finds no file.
\<close>

theorem no_checkpoint_counterexample:
  "train_model \<lparr>batch_step = (\<lambda>b (p, opt). ((Suc p, opt), NaN)), scheduler = None,
               train_loader = (\<lambda>e. [True])\<rparr> 2 (0::nat) (5::nat) None = Inl FileNotFoundError"
  by (simp add: train_model_def initial_state_def epoch_step_def train_epoch_def py_div_def
      patience_def numeral_2_eq_2)


lemma state_at_Suc:
  assumes "state_at T s0 (Suc k) = Some s"
  shows "\<exists>s1. state_at T s0 k = Some s1 \<and> epoch_step T k s1 = Inr (False, s)"
  using assms by (auto split: option.splits sum.splits prod.splits if_splits)

lemma state_at_trained:
  assumes "state_at T s0 k = Some s"
  shows "trained T (params s0, optim s0) k = Inr (params s, optim s)
         \<and> length (loss_history s) = length (loss_history s0) + k"
  using assms
proof (induction k arbitrary: s)
  case 0
  then show ?case by simp
next
  case (Suc k)
  from state_at_Suc[OF Suc.prems] obtain s1 where
    s1: "state_at T s0 k = Some s1" and st: "epoch_step T k s1 = Inr (False, s)" by blast
  from epoch_step_result[OF st] obtain l where
    te: "train_epoch T k (params s1, optim s1) = Inr ((params s, optim s), l)"
    and h: "loss_history s = loss_history s1 @ [l]" by blast
  from Suc.IH[OF s1] te h show ?case by simp
qed

lemma epoch_loop_from_state_at:
  assumes "state_at T s0 k = Some s"
  shows "epoch_loop T 0 (k + r) s0 = epoch_loop T k r s"
  using assms
proof (induction k arbitrary: s r)
  case 0
  then show ?case by simp
next
  case (Suc k)
  from state_at_Suc[OF Suc.prems] obtain s1 where
    s1: "state_at T s0 k = Some s1" and st: "epoch_step T k s1 = Inr (False, s)" by blast
  have "epoch_loop T 0 (Suc k + r) s0 = epoch_loop T 0 (k + Suc r) s0" by simp
  also have "\<dots> = epoch_loop T k (Suc r) s1" by (rule Suc.IH[OF s1])
  also have "\<dots> = epoch_loop T (Suc k) r s" using st by simp
  finally show ?case .
qed

lemma loss_at_train_epoch:
  assumes "trained T x0 e = Inr x" and "loss_at T x0 e = Inr l"
  shows "\<exists>p opt. train_epoch T e x = Inr ((p, opt), l) \<and> trained T x0 (Suc e) = Inr (p, opt)"
  using assms by (auto simp: loss_at_def split: sum.splits prod.splits)

lemma epoch_loop_stalls:
  assumes "trained T x0 e = Inr (params s, optim s)"
    and "counter s < patience"
    and "best_loss s = lk"
    and "best_model_pth s = Some pk"
    and "\<forall>j. e \<le> j \<and> j < e + r \<longrightarrow> (\<exists>l. loss_at T x0 j = Inr l \<and> \<not> fl_lt l lk)"
  shows "\<exists>s'. epoch_loop T e r s = Inr s' \<and> best_model_pth s' = Some pk
            \<and> length (loss_history s') = length (loss_history s) + min r (patience - counter s)"
  using assms
proof (induction r arbitrary: e s)
  case 0
  then show ?case by simp
next
  case (Suc r)
  from Suc.prems(5) obtain l where l: "loss_at T x0 e = Inr l" and nl: "\<not> fl_lt l lk"
    by auto
  from loss_at_train_epoch[OF Suc.prems(1) l] obtain p opt where
    te: "train_epoch T e (params s, optim s) = Inr ((p, opt), l)"
    and tr: "trained T x0 (Suc e) = Inr (p, opt)" by blast
  let ?s2 = "s\<lparr>params := p, optim := opt, loss_history := loss_history s @ [l],
               counter := counter s + 1\<rparr>"
  have st: "epoch_step T e s = Inr (patience \<le> counter s + 1, ?s2)"
    using epoch_step_stall[OF te] nl Suc.prems(3) by simp
  show ?case
  proof (cases "patience \<le> counter s + 1")
    case True
    then have "patience - counter s = 1" using Suc.prems(2) by simp
    then show ?thesis using st True Suc.prems(4) by simp
  next
    case False
    have a: "trained T x0 (Suc e) = Inr (params ?s2, optim ?s2)" using tr by simp
    have b: "counter ?s2 < patience" using False by simp
    have c: "best_loss ?s2 = lk" using Suc.prems(3) by simp
    have d: "best_model_pth ?s2 = Some pk" using Suc.prems(4) by simp
    have e: "\<forall>j. Suc e \<le> j \<and> j < Suc e + r \<longrightarrow> (\<exists>l. loss_at T x0 j = Inr l \<and> \<not> fl_lt l lk)"
      using Suc.prems(5) by simp
    from Suc.IH[OF a b c d e] obtain s' where
      loop: "epoch_loop T (Suc e) r ?s2 = Inr s'" and ck: "best_model_pth s' = Some pk"
      and len: "length (loss_history s') = length (loss_history ?s2) + min r (patience - counter ?s2)"
      by blast
    have "epoch_loop T e (Suc r) s = Inr s'" using st False loop by simp
    moreover have "length (loss_history s') = length (loss_history s) + min (Suc r) (patience - counter s)"
      using len False by (auto simp: min_def)
    ultimately show ?thesis using ck by blast
  qed
qed


text \<open>
  C2. Epochs count from 0. Suppose the epoch loop reaches epoch \<open>k\<close>, the mean loss of
  epoch \<open>k\<close> is strictly below the best loss seen so far, and no later epoch within the
  budget has a mean loss strictly below it. Then \<open>train_model\<close> returns; the loop has
  run \<open>k + 21\<close> epochs, that is, it has stopped at the end of the 20th epoch after epoch
  \<open>k\<close>, or it has used up its budget if that is smaller; and the parameters left in the
  model are those reached at the end of epoch \<open>k\<close>, which is the checkpoint written in
  that epoch.
\<close>

theorem early_stopping_restores_best:
  assumes reach: "state_at T (initial_state p0 opt0 file0) k = Some s"
    and k: "k < epochs"
    and improve: "loss_at T (p0, opt0) k = Inr lk" "fl_lt lk (best_loss s)"
    and stall: "\<forall>j. k < j \<and> j < epochs \<longrightarrow> (\<exists>l. loss_at T (p0, opt0) j = Inr l \<and> \<not> fl_lt l lk)"
  shows "\<exists>pk ok s'. trained T (p0, opt0) (Suc k) = Inr (pk, ok)
            \<and> train_model T epochs p0 opt0 file0 = Inr s'
            \<and> params s' = pk \<and> best_model_pth s' = Some pk
            \<and> length (loss_history s') = min epochs (k + 21)"
proof -
  let ?s0 = "initial_state p0 opt0 file0"
  have x0: "(params ?s0, optim ?s0) = (p0, opt0)" and h0: "loss_history ?s0 = []"
    by (simp_all add: initial_state_def)
  from state_at_trained[OF reach] have
    tr: "trained T (p0, opt0) k = Inr (params s, optim s)" and len: "length (loss_history s) = k"
    by (simp_all add: x0 h0)
  from loss_at_train_epoch[OF tr improve(1)] obtain pk ok where
    te: "train_epoch T k (params s, optim s) = Inr ((pk, ok), lk)"
    and tr': "trained T (p0, opt0) (Suc k) = Inr (pk, ok)" by blast
  let ?s1 = "s\<lparr>params := pk, optim := ok, loss_history := loss_history s @ [lk],
               best_loss := lk, counter := 0, best_model_pth := Some pk\<rparr>"
  have st: "epoch_step T k s = Inr (False, ?s1)"
    using epoch_step_improve[OF te improve(2)] .
  obtain r where r: "epochs = k + Suc r"
    using k by (metis less_imp_Suc_add add_Suc_right)
  have a: "trained T (p0, opt0) (Suc k) = Inr (params ?s1, optim ?s1)" using tr' by simp
  have b: "counter ?s1 < patience" by (simp add: patience_def)
  have c: "best_loss ?s1 = lk" by simp
  have d: "best_model_pth ?s1 = Some pk" by simp
  have e: "\<forall>j. Suc k \<le> j \<and> j < Suc k + r \<longrightarrow> (\<exists>l. loss_at T (p0, opt0) j = Inr l \<and> \<not> fl_lt l lk)"
    using stall r by simp
  from epoch_loop_stalls[OF a b c d e] obtain s' where
    loop: "epoch_loop T (Suc k) r ?s1 = Inr s'" and ck: "best_model_pth s' = Some pk"
    and len': "length (loss_history s') = length (loss_history ?s1) + min r (patience - counter ?s1)"
    by blast
  have "epoch_loop T 0 epochs ?s0 = epoch_loop T k (Suc r) s"
    unfolding r by (rule epoch_loop_from_state_at[OF reach])
  also have "\<dots> = Inr s'" using st loop by simp
  finally have tm: "train_model T epochs p0 opt0 file0 = Inr (s'\<lparr>params := pk\<rparr>)"
    using ck by (simp add: train_model_def)
  have "length (loss_history s') = min epochs (k + 21)"
    using len' len r by (simp add: patience_def min_def)
  with tm tr' ck show ?thesis by simp
qed


lemma demo_train_epoch:
  "train_epoch demo_trainer e (p, opt) = Inr ((Suc p, Suc opt), Fin (max 1 (3 - real p)))"
  by (simp add: train_epoch_def demo_trainer_def py_div_def)

lemma demo_trained: "trained demo_trainer (0, 0) e = Inr (e, e)"
  by (induction e) (simp_all add: demo_train_epoch)

lemma demo_loss_at: "loss_at demo_trainer (0, 0) e = Inr (Fin (max 1 (3 - real e)))"
  by (simp add: loss_at_def demo_trained demo_train_epoch)

lemma demo_state_at:
  "state_at demo_trainer (initial_state 0 0 None) 2
     = Some \<lparr>params = 2, optim = 2, loss_history = [Fin 3, Fin 2], best_loss = Fin 2,
             counter = 0, best_model_pth = Some 2\<rparr>"
  by (simp add: numeral_2_eq_2 epoch_step_def initial_state_def demo_train_epoch)

theorem early_stopping_restores_best_witness:
  "\<exists>s'. train_model demo_trainer 200 0 0 None = Inr s'
        \<and> params s' = 3 \<and> best_model_pth s' = Some 3 \<and> length (loss_history s') = 23
        \<and> trained demo_trainer (0, 0) 23 = Inr (23, 23)"
proof -
  have k: "(2::nat) < 200" by simp
  have i1: "loss_at demo_trainer (0, 0) 2 = Inr (Fin 1)" by (simp add: demo_loss_at)
  have i2: "fl_lt (Fin 1) (best_loss \<lparr>params = 2::nat, optim = 2::nat,
      loss_history = [Fin 3, Fin 2], best_loss = Fin 2, counter = 0, best_model_pth = Some 2\<rparr>)"
    by simp
  have st: "\<forall>j. 2 < j \<and> j < 200 \<longrightarrow>
      (\<exists>l. loss_at demo_trainer (0, 0) j = Inr l \<and> \<not> fl_lt l (Fin 1))"
    by (auto simp: demo_loss_at max_def)
  from early_stopping_restores_best[OF demo_state_at k i1 i2 st]
  show ?thesis by (auto simp: demo_trained)
qed

section \<open>Properties of the feature importance probe\<close>

lemma perturb_body:
  assumes "cells h rs = Some probe" and "cells h oo = Some base"
    and "rs < fresh h" and "oo < fresh h" and "i < length probe" and "i < length fi"
  shows "perturb_loop f rs oo (i # rest) (h, fi) =
           perturb_loop f rs oo rest
             (h\<lparr>cells := (cells h)(fresh h \<mapsto> perturbed probe i,
                                   Suc (fresh h) \<mapsto> f (perturbed probe i)),
                fresh := Suc (Suc (fresh h))\<rparr>,
              fi[i := l2_norm (map (\<lambda>(x, y). x - y) (zip (f (perturbed probe i)) base))])"
proof -
  have c: "clone rs h = Inr (fresh h, h\<lparr>cells := (cells h)(fresh h \<mapsto> probe), fresh := Suc (fresh h)\<rparr>)"
    using assms(1) by (simp add: clone_def alloc_def)
  have a: "add_at (fresh h) i 0.1 (h\<lparr>cells := (cells h)(fresh h \<mapsto> probe), fresh := Suc (fresh h)\<rparr>)
      = Inr (h\<lparr>cells := (cells h)(fresh h \<mapsto> perturbed probe i), fresh := Suc (fresh h)\<rparr>)"
    using assms(5) by (simp add: add_at_def perturbed_def)
  have m: "call_model f (fresh h) (h\<lparr>cells := (cells h)(fresh h \<mapsto> perturbed probe i), fresh := Suc (fresh h)\<rparr>)
      = Inr (Suc (fresh h), h\<lparr>cells := (cells h)(fresh h \<mapsto> perturbed probe i,
                                   Suc (fresh h) \<mapsto> f (perturbed probe i)),
                fresh := Suc (Suc (fresh h))\<rparr>)"
    by (simp add: call_model_def alloc_def)
  have n: "norm_of_difference (Suc (fresh h)) oo
      (h\<lparr>cells := (cells h)(fresh h \<mapsto> perturbed probe i, Suc (fresh h) \<mapsto> f (perturbed probe i)),
                fresh := Suc (Suc (fresh h))\<rparr>)
      = Inr (l2_norm (map (\<lambda>(x, y). x - y) (zip (f (perturbed probe i)) base)))"
    using assms(2,4) by (simp add: norm_of_difference_def)
  show ?thesis
    using assms(6) by (simp add: c a m n)
qed

lemma perturb_loop_invariant:
  assumes "cells h rs = Some probe" and "cells h oo = Some base"
    and "rs < fresh h" and "oo < fresh h"
    and "\<forall>i \<in> set idx. i < length probe \<and> i < length fi"
  shows "\<exists>h'. perturb_loop f rs oo idx (h, fi)
             = Inr (h', fold (\<lambda>i acc. acc[i := l2_norm (map (\<lambda>(x, y). x - y)
                                              (zip (f (perturbed probe i)) base))]) idx fi)
          \<and> fresh h' = fresh h + 2 * length idx
          \<and> (\<forall>a. a < fresh h \<longrightarrow> cells h' a = cells h a)
          \<and> (\<forall>k. k < length idx \<longrightarrow>
                cells h' (fresh h + 2 * k) = Some (perturbed probe (idx ! k))
              \<and> cells h' (fresh h + 2 * k + 1) = Some (f (perturbed probe (idx ! k))))"
  using assms
proof (induction idx arbitrary: h fi)
  case Nil
  then show ?case by simp
next
  case (Cons i idx)
  let ?h1 = "h\<lparr>cells := (cells h)(fresh h \<mapsto> perturbed probe i,
                                   Suc (fresh h) \<mapsto> f (perturbed probe i)),
                fresh := Suc (Suc (fresh h))\<rparr>"
  let ?g = "\<lambda>i. l2_norm (map (\<lambda>(x, y). x - y) (zip (f (perturbed probe i)) base))"
  let ?fi1 = "fi[i := ?g i]"
  have i: "i < length probe" "i < length fi" using Cons.prems(5) by simp_all
  have step: "perturb_loop f rs oo (i # idx) (h, fi) = perturb_loop f rs oo idx (?h1, ?fi1)"
    using perturb_body[OF Cons.prems(1,2,3,4) i] .
  have a: "cells ?h1 rs = Some probe" using Cons.prems(1,3) by simp
  have b: "cells ?h1 oo = Some base" using Cons.prems(2,4) by simp
  have c: "rs < fresh ?h1" "oo < fresh ?h1" using Cons.prems(3,4) by simp_all
  have d: "\<forall>j \<in> set idx. j < length probe \<and> j < length ?fi1" using Cons.prems(5) by simp
  from Cons.IH[OF a b c d] obtain h' where
    run: "perturb_loop f rs oo idx (?h1, ?fi1) = Inr (h', fold (\<lambda>i acc. acc[i := ?g i]) idx ?fi1)"
    and fr: "fresh h' = fresh ?h1 + 2 * length idx"
    and old: "\<forall>a. a < fresh ?h1 \<longrightarrow> cells h' a = cells ?h1 a"
    and new: "\<forall>k. k < length idx \<longrightarrow>
                cells h' (fresh ?h1 + 2 * k) = Some (perturbed probe (idx ! k))
              \<and> cells h' (fresh ?h1 + 2 * k + 1) = Some (f (perturbed probe (idx ! k)))"
    by blast
  have r1: "perturb_loop f rs oo (i # idx) (h, fi)
      = Inr (h', fold (\<lambda>i acc. acc[i := ?g i]) (i # idx) fi)"
    using step run by simp
  have r2: "fresh h' = fresh h + 2 * length (i # idx)" using fr by simp
  have r3: "\<forall>a. a < fresh h \<longrightarrow> cells h' a = cells h a"
  proof (intro allI impI)
    fix a assume "a < fresh h"
    then have "cells h' a = cells ?h1 a" using old by simp
    also have "\<dots> = cells h a" using \<open>a < fresh h\<close> by simp
    finally show "cells h' a = cells h a" .
  qed
  have r4: "\<forall>k. k < length (i # idx) \<longrightarrow>
                cells h' (fresh h + 2 * k) = Some (perturbed probe ((i # idx) ! k))
              \<and> cells h' (fresh h + 2 * k + 1) = Some (f (perturbed probe ((i # idx) ! k)))"
  proof (intro allI impI)
    fix k assume k: "k < length (i # idx)"
    show "cells h' (fresh h + 2 * k) = Some (perturbed probe ((i # idx) ! k))
              \<and> cells h' (fresh h + 2 * k + 1) = Some (f (perturbed probe ((i # idx) ! k)))"
    proof (cases k)
      case 0
      have "cells h' (fresh h) = cells ?h1 (fresh h)" using old by simp
      moreover have "cells h' (Suc (fresh h)) = cells ?h1 (Suc (fresh h))" using old by simp
      ultimately show ?thesis using 0 by simp
    next
      case (Suc k')
      then have "k' < length idx" using k by simp
      with new have "cells h' (fresh ?h1 + 2 * k') = Some (perturbed probe (idx ! k'))
              \<and> cells h' (fresh ?h1 + 2 * k' + 1) = Some (f (perturbed probe (idx ! k')))"
        by blast
      then show ?thesis using Suc by simp
    qed
  qed
  from r1 r2 r3 r4 show ?case by blast
qed

lemma fold_update_upt:
  assumes "k \<le> length fi"
  shows "fold (\<lambda>i acc. acc[i := g i]) [0..<k] fi = map g [0..<k] @ drop k fi"
  using assms
proof (induction k)
  case 0
  then show ?case by simp
next
  case (Suc k)
  then have k: "k < length fi" by simp
  have "fold (\<lambda>i acc. acc[i := g i]) [0..<Suc k] fi = (map g [0..<k] @ drop k fi)[k := g k]"
    using Suc by simp
  also have "\<dots> = map g [0..<k] @ (drop k fi)[0 := g k]"
    by (simp add: list_update_append)
  also have "(drop k fi)[0 := g k] = g k # drop (Suc k) fi"
    using k by (simp add: Cons_nth_drop_Suc[symmetric])
  finally show ?case by simp
qed


lemma probe_run_result:
  assumes "length probe = n"
  shows "\<exists>h. probe_run f n probe = Inr (h, map (importance_of f probe) [0..<n])
           \<and> cells h 0 = Some probe \<and> cells h 1 = Some (f probe)
           \<and> (\<forall>i. i < n \<longrightarrow> cells h (2 + 2 * i) = Some (perturbed probe i)
                            \<and> cells h (3 + 2 * i) = Some (f (perturbed probe i)))"
proof -
  let ?h1 = "\<lparr>cells = (\<lambda>a. None)(0 \<mapsto> probe, Suc 0 \<mapsto> f probe), fresh = Suc (Suc 0)\<rparr>"
  let ?g = "\<lambda>i. l2_norm (map (\<lambda>(x, y). x - y) (zip (f (perturbed probe i)) (f probe)))"
  have start: "probe_run f n probe = perturb_loop f 0 (Suc 0) [0..<n] (?h1, replicate n 0)"
    by (simp add: probe_run_def alloc_def empty_heap_def call_model_def)
  have a: "cells ?h1 0 = Some probe" and b: "cells ?h1 (Suc 0) = Some (f probe)"
    and c: "0 < fresh ?h1" "Suc 0 < fresh ?h1" by simp_all
  have d: "\<forall>i \<in> set [0..<n]. i < length probe \<and> i < length (replicate n (0::real))"
    using assms by simp
  from perturb_loop_invariant[OF a b c d, of f] obtain h' where
    run: "perturb_loop f 0 (Suc 0) [0..<n] (?h1, replicate n 0)
           = Inr (h', fold (\<lambda>i acc. acc[i := ?g i]) [0..<n] (replicate n 0))"
    and old: "\<forall>a. a < fresh ?h1 \<longrightarrow> cells h' a = cells ?h1 a"
    and new: "\<forall>k. k < length [0..<n] \<longrightarrow>
                cells h' (fresh ?h1 + 2 * k) = Some (perturbed probe ([0..<n] ! k))
              \<and> cells h' (fresh ?h1 + 2 * k + 1) = Some (f (perturbed probe ([0..<n] ! k)))"
    by blast
  have raw: "fold (\<lambda>i acc. acc[i := ?g i]) [0..<n] (replicate n 0) = map (importance_of f probe) [0..<n]"
    using fold_update_upt[of n "replicate n 0" ?g] by (simp add: importance_of_def)
  have p0: "cells h' 0 = Some probe" using old by simp
  have p1: "cells h' 1 = Some (f probe)" using old by simp
  have ps: "\<forall>i. i < n \<longrightarrow> cells h' (2 + 2 * i) = Some (perturbed probe i)
                            \<and> cells h' (3 + 2 * i) = Some (f (perturbed probe i))"
  proof (intro allI impI)
    fix i assume "i < n"
    with new have "cells h' (fresh ?h1 + 2 * i) = Some (perturbed probe ([0..<n] ! i))
              \<and> cells h' (fresh ?h1 + 2 * i + 1) = Some (f (perturbed probe ([0..<n] ! i)))"
      by simp
    then show "cells h' (2 + 2 * i) = Some (perturbed probe i)
                            \<and> cells h' (3 + 2 * i) = Some (f (perturbed probe i))"
      using \<open>i < n\<close> by (simp add: numeral_3_eq_3)
  qed
  from start run raw p0 p1 ps show ?thesis by auto
qed

text \<open>
  C10. The probe tensor is at address 0 of the store and the baseline output at
  address 1; iteration \<open>i\<close> puts its perturbed sample at address \<open>2 + 2 i\<close> and that
  sample's output at \<open>3 + 2 i\<close>. After all iterations the probe and the baseline are
  what they were at the start. The sample perturbed for channel \<open>i\<close> has the probe's
  length, equals the probe at every other channel and exceeds it by 0.1 at channel
  \<open>i\<close>; and the raw importance of channel \<open>i\<close> is the norm of the difference between
  that sample's output and the one baseline.
\<close>

theorem perturbation_frame:
  assumes "length probe = n"
  shows "\<exists>h raw. probe_run f n probe = Inr (h, raw) \<and> length raw = n
           \<and> cells h 0 = Some probe \<and> cells h 1 = Some (f probe)
           \<and> (\<forall>i. i < n \<longrightarrow> (\<exists>ps.
                 cells h (2 + 2 * i) = Some ps \<and> cells h (3 + 2 * i) = Some (f ps)
               \<and> length ps = n \<and> ps ! i = probe ! i + 0.1
               \<and> (\<forall>j. j < n \<and> j \<noteq> i \<longrightarrow> ps ! j = probe ! j)
               \<and> raw ! i = l2_norm (map (\<lambda>(x, y). x - y) (zip (f ps) (f probe)))))"
proof -
  from probe_run_result[OF assms, of f] obtain h where
    run: "probe_run f n probe = Inr (h, map (importance_of f probe) [0..<n])"
    and p0: "cells h 0 = Some probe" and p1: "cells h 1 = Some (f probe)"
    and ps: "\<forall>i. i < n \<longrightarrow> cells h (2 + 2 * i) = Some (perturbed probe i)
                            \<and> cells h (3 + 2 * i) = Some (f (perturbed probe i))"
    by blast
  have frame: "\<exists>ps. cells h (2 + 2 * i) = Some ps \<and> cells h (3 + 2 * i) = Some (f ps)
               \<and> length ps = n \<and> ps ! i = probe ! i + 0.1
               \<and> (\<forall>j. j < n \<and> j \<noteq> i \<longrightarrow> ps ! j = probe ! j)
               \<and> map (importance_of f probe) [0..<n] ! i
                   = l2_norm (map (\<lambda>(x, y). x - y) (zip (f ps) (f probe)))"
    if "i < n" for i
  proof (intro exI conjI)
    show "cells h (2 + 2 * i) = Some (perturbed probe i)" using ps that by simp
    show "cells h (3 + 2 * i) = Some (f (perturbed probe i))" using ps that by simp
    show "length (perturbed probe i) = n" using assms by (simp add: perturbed_def)
    show "perturbed probe i ! i = probe ! i + 0.1" using assms that by (simp add: perturbed_def)
    show "\<forall>j. j < n \<and> j \<noteq> i \<longrightarrow> perturbed probe i ! j = probe ! j"
      by (simp add: perturbed_def)
    show "map (importance_of f probe) [0..<n] ! i
            = l2_norm (map (\<lambda>(x, y). x - y) (zip (f (perturbed probe i)) (f probe)))"
      using that by (simp add: importance_of_def)
  qed
  from run p0 p1 frame show ?thesis by (intro exI conjI) auto
qed

theorem perturbation_frame_witness:
  "\<exists>h raw. probe_run (\<lambda>v. [v ! 0 + 2 * v ! 1]) 2 [5, 7] = Inr (h, raw)
     \<and> cells h 0 = Some [5, 7] \<and> cells h 1 = Some [19]
     \<and> cells h 2 = Some [5 + 0.1, 7] \<and> cells h 4 = Some [5, 7 + 0.1]"
proof -
  have len: "length [5, 7::real] = 2" by simp
  from perturbation_frame[OF len, of "\<lambda>v. [v ! 0 + 2 * v ! 1]"] obtain h raw where
    run: "probe_run (\<lambda>v. [v ! 0 + 2 * v ! 1]) 2 [5, 7] = Inr (h, raw)"
    and p: "cells h 0 = Some [5, 7]" "cells h 1 = Some ((\<lambda>v. [v ! 0 + 2 * v ! 1]) [5, 7])"
    and ps: "\<forall>i. i < 2 \<longrightarrow> (\<exists>ps.
                 cells h (2 + 2 * i) = Some ps \<and> length ps = 2 \<and> ps ! i = [5, 7] ! i + 0.1
               \<and> (\<forall>j. j < 2 \<and> j \<noteq> i \<longrightarrow> ps ! j = [5, 7] ! j))"
    by blast
  from ps[rule_format, of 0] obtain a where
    a: "cells h 2 = Some a" "length a = 2" "a ! 0 = 5 + 0.1" "a ! 1 = 7"
    by auto
  from ps[rule_format, of 1] obtain b where
    b: "cells h 4 = Some b" "length b = 2" "b ! 1 = 7 + 0.1" "b ! 0 = 5"
    by auto
  have "a = [5 + 0.1, 7]" using a(2,3,4) by (intro nth_equalityI) (auto simp: less_Suc_eq numeral_2_eq_2)
  moreover have "b = [5, 7 + 0.1]" using b(2,3,4) by (intro nth_equalityI) (auto simp: less_Suc_eq numeral_2_eq_2)
  ultimately show ?thesis using run p a(1) b(1) by auto
qed

lemma l2_norm_nonneg: "0 \<le> l2_norm v"
proof -
  have "0 \<le> sum_list (map (\<lambda>x. x\<^sup>2) v)" by (rule sum_list_nonneg) auto
  then show ?thesis by (simp add: l2_norm_def)
qed

lemma importance_nonneg: "0 \<le> importance_of f probe i"
  by (simp add: importance_of_def l2_norm_nonneg)

lemma argsort_props:
  "length (argsort xs) = length xs" "distinct (argsort xs)" "set (argsort xs) = {0..<length xs}"
  "sorted (map (\<lambda>i. sort_rank (xs ! i)) (argsort xs))"
  by (simp_all add: argsort_def)

lemma top_indices_props:
  fixes xs :: "fl list"
  defines "idx \<equiv> drop (length xs - 10) (argsort xs)"
  shows "length idx = min 10 (length xs)" and "distinct idx" and "set idx \<subseteq> {0..<length xs}"
    and "\<And>i j. i \<in> set idx \<Longrightarrow> j < length xs \<Longrightarrow> j \<notin> set idx
           \<Longrightarrow> sort_rank (xs ! j) \<le> sort_rank (xs ! i)"
proof -
  let ?m = "length xs - 10"
  let ?ys = "argsort xs"
  show "length idx = min 10 (length xs)"
    by (auto simp: idx_def argsort_props(1))
  show "distinct idx" by (simp add: idx_def argsort_props(2))
  show "set idx \<subseteq> {0..<length xs}"
    using set_drop_subset[of ?m ?ys] by (simp add: idx_def argsort_props(3))
  fix i j assume i: "i \<in> set idx" and j: "j < length xs" "j \<notin> set idx"
  have "set ?ys = set (take ?m ?ys) \<union> set (drop ?m ?ys)"
    by (metis append_take_drop_id set_append)
  then have jt: "j \<in> set (take ?m ?ys)"
    using j by (auto simp: idx_def argsort_props(3))
  have "sorted (map (\<lambda>i. sort_rank (xs ! i)) (take ?m ?ys @ drop ?m ?ys))"
    using argsort_props(4)[of xs] by simp
  then have "\<forall>a \<in> set (take ?m ?ys). \<forall>b \<in> set (drop ?m ?ys).
      sort_rank (xs ! a) \<le> sort_rank (xs ! b)"
    by (simp only: map_append sorted_append set_map) blast
  then show "sort_rank (xs ! j) \<le> sort_rank (xs ! i)"
    using jt i by (simp add: idx_def)
qed


text \<open>
  C8, as the code has it. Let \<open>n\<close> be the number of channels and suppose that the
  perturbation of at least one channel changes the model's output. Then the function
  returns; entry \<open>i\<close> of the importance vector is the raw importance of channel \<open>i\<close>
  (the norm of the output change when 0.1 is added to that channel alone) divided by
  the largest raw importance; every entry is a number in \<open>[0, 1]\<close> and some entry is 1;
  and the channels returned beside it are \<open>min 10 n\<close> distinct channels, each at least
  as important as every channel that is not returned.
\<close>

theorem feature_importance_normalized:
  assumes len: "length (randn (length cols)) = length cols"
    and some: "\<exists>i. i < length cols \<and> importance_of f (randn (length cols)) i \<noteq> 0"
  shows "\<exists>imp idx.
           feature_importance_analysis f cols randn = Inr (imp, map (\<lambda>i. cols ! i) idx)
         \<and> length imp = length cols
         \<and> (\<forall>i. i < length cols \<longrightarrow>
               imp ! i = Fin (importance_of f (randn (length cols)) i
                  / Max (set (map (importance_of f (randn (length cols))) [0..<length cols]))))
         \<and> (\<exists>i. i < length cols \<and> imp ! i = Fin 1)
         \<and> (\<forall>i. i < length cols \<longrightarrow> (\<exists>v. imp ! i = Fin v \<and> 0 \<le> v \<and> v \<le> 1))
         \<and> distinct idx \<and> set idx \<subseteq> {0..<length cols} \<and> length idx = min 10 (length cols)
         \<and> (\<forall>i j. i \<in> set idx \<and> j < length cols \<and> j \<notin> set idx \<longrightarrow>
               importance_of f (randn (length cols)) j \<le> importance_of f (randn (length cols)) i)"
proof -
  define n where "n = length cols"
  define g where "g = importance_of f (randn n)"
  define raw where "raw = map g [0..<n]"
  define M where "M = Max (set raw)"
  define imp where "imp = map (\<lambda>v. np_div v M) raw"
  define idx where "idx = drop (length imp - 10) (argsort imp)"
  from probe_run_result[OF len[folded n_def], of f] obtain h where
    run: "probe_run f n (randn n) = Inr (h, raw)"
    by (auto simp: raw_def g_def)
  from some obtain i0 where i0: "i0 < n" "g i0 \<noteq> 0" by (auto simp: n_def g_def)
  have rawne: "raw \<noteq> []" using i0 by (auto simp: raw_def)
  have lraw: "length raw = n" by (simp add: raw_def)
  have nth_raw: "raw ! i = g i" if "i < n" for i using that by (simp add: raw_def)
  have mem: "g i \<in> set raw" if "i < n" for i using that by (auto simp: raw_def)
  have le: "g i \<le> M" if "i < n" for i
    unfolding M_def using mem[OF that] by (intro Max_ge) auto
  have "0 < g i0" using i0(2) importance_nonneg[of f "randn n" i0] by (simp add: g_def)
  then have Mpos: "0 < M" using le[OF i0(1)] by linarith
  have res: "feature_importance_analysis f cols randn = Inr (imp, map (\<lambda>i. cols ! i) idx)"
    unfolding feature_importance_analysis_def n_def[symmetric] run
    using rawne by (simp add: Let_def imp_def idx_def M_def)
  have limp: "length imp = n" by (simp add: imp_def lraw)
  have nth_imp: "imp ! i = Fin (g i / M)" if "i < n" for i
    using that Mpos by (simp add: imp_def lraw nth_raw np_div_def)
  have "M \<in> set raw" unfolding M_def using rawne by (intro Max_in) auto
  then obtain im where im: "im < n" "g im = M" by (auto simp: raw_def)
  have one: "\<exists>i. i < n \<and> imp ! i = Fin 1"
    using im nth_imp[OF im(1)] Mpos by (intro exI[of _ im]) simp
  have unit: "\<exists>v. imp ! i = Fin v \<and> 0 \<le> v \<and> v \<le> 1" if "i < n" for i
  proof (intro exI conjI)
    show "imp ! i = Fin (g i / M)" using nth_imp[OF that] .
    show "0 \<le> g i / M" using Mpos importance_nonneg[of f "randn n" i] by (simp add: g_def)
    show "g i / M \<le> 1" using Mpos le[OF that] by simp
  qed
  note top = top_indices_props[where xs = imp, folded idx_def, unfolded limp]
  have order: "g j \<le> g i" if "i \<in> set idx" "j < n" "j \<notin> set idx" for i j
  proof -
    have "i < n" using that(1) top(3) by auto
    from top(4)[OF that] have "sort_rank (imp ! j) \<le> sort_rank (imp ! i)" .
    then have "g j / M \<le> g i / M"
      by (simp add: nth_imp[OF \<open>i < n\<close>] nth_imp[OF that(2)])
    then show ?thesis using Mpos by (simp add: divide_le_cancel)
  qed
  have "feature_importance_analysis f cols randn = Inr (imp, map (\<lambda>i. cols ! i) idx)
         \<and> length imp = n
         \<and> (\<forall>i. i < n \<longrightarrow> imp ! i = Fin (g i / M))
         \<and> (\<exists>i. i < n \<and> imp ! i = Fin 1)
         \<and> (\<forall>i. i < n \<longrightarrow> (\<exists>v. imp ! i = Fin v \<and> 0 \<le> v \<and> v \<le> 1))
         \<and> distinct idx \<and> set idx \<subseteq> {0..<n} \<and> length idx = min 10 n
         \<and> (\<forall>i j. i \<in> set idx \<and> j < n \<and> j \<notin> set idx \<longrightarrow> g j \<le> g i)"
    using res limp nth_imp one unit top(1,2,3) order by blast
  then show ?thesis
    unfolding M_def raw_def g_def n_def by blast
qed


theorem feature_importance_normalized_witness:
  "\<exists>imp idx.
      feature_importance_analysis (\<lambda>v. [v ! 0]) [0..<12] (\<lambda>n. replicate n 0)
        = Inr (imp, map (\<lambda>i. [0..<12] ! i) idx)
    \<and> length imp = 12 \<and> (\<exists>i. i < 12 \<and> imp ! i = Fin 1)
    \<and> (\<forall>i. i < 12 \<longrightarrow> (\<exists>v. imp ! i = Fin v \<and> 0 \<le> v \<and> v \<le> 1))
    \<and> distinct idx \<and> length idx = 10"
proof -
  have len: "length ((\<lambda>n. replicate n (0::real)) (length [0..<12])) = length [0..<12]"
    by simp
  have "importance_of (\<lambda>v. [v ! 0]) (replicate 12 0) 0 \<noteq> 0"
    by (simp add: importance_of_def perturbed_def l2_norm_def)
  then have some: "\<exists>i. i < length [0..<12]
      \<and> importance_of (\<lambda>v. [v ! 0]) ((\<lambda>n. replicate n 0) (length [0..<12])) i \<noteq> 0"
    by (intro exI[of _ 0]) simp
  from feature_importance_normalized[of "\<lambda>n. replicate n 0" "[0..<12]" "\<lambda>v. [v ! 0]", OF len some]
  obtain imp idx where
    "feature_importance_analysis (\<lambda>v. [v ! 0]) [0..<12] (\<lambda>n. replicate n 0)
        = Inr (imp, map (\<lambda>i. [0..<12] ! i) idx)"
    "length imp = length [0..<12::nat]"
    "\<exists>i. i < length [0..<12::nat] \<and> imp ! i = Fin 1"
    "\<forall>i. i < length [0..<12::nat] \<longrightarrow> (\<exists>v. imp ! i = Fin v \<and> 0 \<le> v \<and> v \<le> 1)"
    "distinct idx" "length idx = min 10 (length [0..<12::nat])"
    by blast
  then show ?thesis by (intro exI[of _ imp] exI[of _ idx]) simp
qed

text \<open>
  C8, as the claim states it, fails. For a model whose output does not change under
  any of the perturbations, every raw importance is 0, the normalisation divides 0 by
  0, and every entry of the importance vector is NaN: the maximum is not 1 and no
  entry is in \<open>[0, 1]\<close>. And with two channels, two channels are returned, not ten.
\<close>

theorem feature_importance_counterexample:
  "feature_importance_analysis (\<lambda>v. [0]) [1100, 1102::nat] (\<lambda>n. replicate n 0)
     = Inr ([NaN, NaN], [1100, 1102])"
proof -
  have raw: "map (importance_of (\<lambda>v. [0]) [0, 0]) [0..<2] = [0, 0]"
    by (simp add: importance_of_def l2_norm_def upt_rec)
  from probe_run_result[of "[0, 0]" 2 "\<lambda>v. [0]"] obtain h where
    "probe_run (\<lambda>v. [0]) 2 [0, 0] = Inr (h, map (importance_of (\<lambda>v. [0]) [0, 0]) [0..<2])"
    by auto
  then have run: "probe_run (\<lambda>v. [0]) 2 [0, 0] = Inr (h, [0, 0])"
    by (simp only: raw)
  then have run': "probe_run (\<lambda>v. [0]) (Suc (Suc 0)) [0, 0] = Inr (h, [0, 0])"
    by (simp add: numeral_2_eq_2)
  have "argsort [NaN, NaN] = [0, 1]" by (simp add: argsort_def)
  then show ?thesis
    by (simp add: feature_importance_analysis_def run' np_div_def)
qed

end
